theory Spec2Isabelle
  imports Complex_Main
begin

section \<open>JavaScript numbers\<close>

text \<open>
  A value of the TypeScript type \<open>number\<close>: a finite value, one of the two infinities,
  or NaN. Finite values are modelled by the real number they denote. Every numeric
  operation the media layer performs (comparison, \<open>Math.floor\<close>, \<open>Math.round\<close>,
  the remainder \<open>%\<close>, lodash \<open>clamp\<close>) is exact on doubles, so no rounding is lost
  by that; the sign of zero is not modelled (\<open>-0 === 0\<close> in JavaScript).
\<close>

datatype jsnum = Fin real | PInf | NInf | NaN

text \<open>Strict equality \<open>===\<close> on numbers: NaN is equal to nothing, itself included.\<close>

definition js_seq :: "jsnum \<Rightarrow> jsnum \<Rightarrow> bool" where
  "js_seq a b = (a \<noteq> NaN \<and> b \<noteq> NaN \<and> a = b)"

fun js_le :: "jsnum \<Rightarrow> jsnum \<Rightarrow> bool" where
  "js_le NaN _ = False"
| "js_le _ NaN = False"
| "js_le NInf _ = True"
| "js_le _ PInf = True"
| "js_le (Fin a) (Fin b) = (a \<le> b)"
| "js_le PInf _ = False"
| "js_le (Fin a) NInf = False"

definition js_ge :: "jsnum \<Rightarrow> jsnum \<Rightarrow> bool" where
  "js_ge a b = js_le b a"

fun Math_floor :: "jsnum \<Rightarrow> jsnum" where
  "Math_floor (Fin r) = Fin (of_int \<lfloor>r\<rfloor>)"
| "Math_floor x = x"

text \<open>\<open>Math.round\<close>: the nearest integer, a tie going towards \<open>+\<infinity>\<close>.\<close>

fun Math_round :: "jsnum \<Rightarrow> jsnum" where
  "Math_round (Fin r) = Fin (of_int \<lfloor>r + 1 / 2\<rfloor>)"
| "Math_round x = x"

text \<open>
  The remainder operator \<open>%\<close>: the result has the sign of the dividend (truncated
  division); NaN for a NaN operand, an infinite dividend or a zero divisor; the dividend
  itself for an infinite divisor.
\<close>

definition trunc_rem :: "real \<Rightarrow> real \<Rightarrow> real" where
  "trunc_rem a b =
     (if 0 \<le> a then a - \<bar>b\<bar> * of_int \<lfloor>a / \<bar>b\<bar>\<rfloor>
      else - ((- a) - \<bar>b\<bar> * of_int \<lfloor>(- a) / \<bar>b\<bar>\<rfloor>))"

fun js_rem :: "jsnum \<Rightarrow> jsnum \<Rightarrow> jsnum" where
  "js_rem NaN _ = NaN"
| "js_rem _ NaN = NaN"
| "js_rem PInf _ = NaN"
| "js_rem NInf _ = NaN"
| "js_rem (Fin a) PInf = Fin a"
| "js_rem (Fin a) NInf = Fin a"
| "js_rem (Fin a) (Fin b) = (if b = 0 then NaN else Fin (trunc_rem a b))"

text \<open>
  lodash \<open>clamp(number, lower, upper)\<close> with both bounds given: a NaN bound counts as 0,
  a NaN number is returned as it is; otherwise the upper bound is applied first, then
  the lower one.
\<close>

definition clamp :: "jsnum \<Rightarrow> jsnum \<Rightarrow> jsnum \<Rightarrow> jsnum" where
  "clamp number lower upper =
     (let upper' = (if upper = NaN then Fin 0 else upper);
          lower' = (if lower = NaN then Fin 0 else lower)
      in if number = NaN then number
         else (let n1 = (if js_le number upper' then number else upper')
               in if js_ge n1 lower' then n1 else lower'))"

section \<open>The snapshot (MediaMachine.ts)\<close>

datatype MediaStatus = LOADING | CAN_PLAY | RECOVERING | ERROR

record BitrateInfo =
  bitrate :: jsnum
  width :: jsnum
  height :: jsnum

text \<open>
  The ranges of a \<open>TimeRanges\<close>: the list of its \<open>[start(i), end(i)]\<close> pairs, \<open>i\<close> from 0
  to \<open>length - 1\<close>.
\<close>

type_synonym TimeRanges = "(jsnum \<times> jsnum) list"

text \<open>
  A \<open>TimeRanges\<close> object, as the snapshot holds it in \<open>buffered\<close>: a reference to a host
  object. Every read of \<open>media.buffered\<close> returns a new object, whose ranges never
  change; the provider records the ranges of the objects it has stored, by reference
  (\<open>time_ranges_objects\<close> below). Two references are equal exactly when they are the
  same object.
\<close>

datatype TimeRangesObject = TimeRangesObject nat

record MediaValuesContext =
  currentTime :: jsnum
  seeking :: bool
  duration :: jsnum
  volume :: jsnum
  playbackRate :: jsnum
  paused :: bool
  muted :: bool
  ended :: bool
  status :: MediaStatus
  rotate_deg :: jsnum
  error :: string
  buffered :: "TimeRangesObject option"
  autoBitrateEnabled :: bool
  bitrateInfos :: "BitrateInfo list"
  currentBirateIndex :: jsnum

text \<open>
  \<open>Partial<MediaValuesContext>\<close>: every field may be absent (\<open>None\<close>). The object
  literal \<open>{}\<close> is \<open>no_values\<close>; \<open>{ seeking: false }\<close> is
  \<open>no_values\<lparr>seeking_u := Some False\<rparr>\<close>.
\<close>

record UpdateValues =
  currentTime_u :: "jsnum option"
  seeking_u :: "bool option"
  duration_u :: "jsnum option"
  volume_u :: "jsnum option"
  playbackRate_u :: "jsnum option"
  paused_u :: "bool option"
  muted_u :: "bool option"
  ended_u :: "bool option"
  status_u :: "MediaStatus option"
  rotate_u :: "jsnum option"
  error_u :: "string option"
  buffered_u :: "TimeRangesObject option option"
  autoBitrateEnabled_u :: "bool option"
  bitrateInfos_u :: "BitrateInfo list option"
  currentBirateIndex_u :: "jsnum option"

definition no_values :: UpdateValues where
  "no_values = \<lparr> currentTime_u = None, seeking_u = None, duration_u = None,
     volume_u = None, playbackRate_u = None, paused_u = None, muted_u = None,
     ended_u = None, status_u = None, rotate_u = None, error_u = None,
     buffered_u = None, autoBitrateEnabled_u = None, bitrateInfos_u = None,
     currentBirateIndex_u = None \<rparr>"

definition DEFAULT_AUTO_BITRATE_INDEX :: jsnum where
  "DEFAULT_AUTO_BITRATE_INDEX = Fin (- 1)"

text \<open>The \<open>context\<close> of \<open>mediaMachine\<close>: the defaults a session starts from.\<close>

definition initial_context :: MediaValuesContext where
  "initial_context = \<lparr> currentTime = Fin 0, seeking = False, duration = Fin 0,
     volume = Fin 1, playbackRate = Fin 1, paused = True, muted = False,
     ended = False, status = LOADING, rotate_deg = Fin 0, error = [],
     buffered = None, autoBitrateEnabled = True, bitrateInfos = [],
     currentBirateIndex = DEFAULT_AUTO_BITRATE_INDEX \<rparr>"

text \<open>One spread property: the value of the later object when it has the property.\<close>

definition spread_field :: "'a \<Rightarrow> 'a option \<Rightarrow> 'a" where
  "spread_field old new = (case new of None \<Rightarrow> old | Some v \<Rightarrow> v)"

text \<open>
  The action \<open>updateMedia\<close>: \<open>assign((context, event) => ({ ...context,
  ...event.updateValues }))\<close>. The result is a new object; \<open>context\<close> is only read.
\<close>

definition updateMedia :: "MediaValuesContext \<Rightarrow> UpdateValues \<Rightarrow> MediaValuesContext" where
  "updateMedia context updateValues =
     \<lparr> currentTime = spread_field (currentTime context) (currentTime_u updateValues),
       seeking = spread_field (seeking context) (seeking_u updateValues),
       duration = spread_field (duration context) (duration_u updateValues),
       volume = spread_field (volume context) (volume_u updateValues),
       playbackRate = spread_field (playbackRate context) (playbackRate_u updateValues),
       paused = spread_field (paused context) (paused_u updateValues),
       muted = spread_field (muted context) (muted_u updateValues),
       ended = spread_field (ended context) (ended_u updateValues),
       status = spread_field (status context) (status_u updateValues),
       rotate_deg = spread_field (rotate_deg context) (rotate_u updateValues),
       error = spread_field (error context) (error_u updateValues),
       buffered = spread_field (buffered context) (buffered_u updateValues),
       autoBitrateEnabled =
         spread_field (autoBitrateEnabled context) (autoBitrateEnabled_u updateValues),
       bitrateInfos = spread_field (bitrateInfos context) (bitrateInfos_u updateValues),
       currentBirateIndex =
         spread_field (currentBirateIndex context) (currentBirateIndex_u updateValues) \<rparr>"

text \<open>
  The running service \<open>interpret(mediaMachine).start()\<close>. The machine has the single
  state \<open>ready\<close>, whose only transition, on \<open>UPDATE\<close>, has no target and the one action
  \<open>updateMedia\<close>. The interpreter is the library @xstate/fsm: \<open>send\<close> computes the next
  state by running the assign action on the current context, and then calls every
  listener with the new state. Its transition function marks the next state \<open>changed\<close>
  when the target differs from the current state value, or an action other than an
  assignment is to be executed, or an assign action ran; here an assign action runs on
  every \<open>UPDATE\<close>, so the state is marked changed whatever the update holds. The state
  of a service that has not received an event is not marked changed.
  The service is started when the provider is created and is never stopped, so \<open>send\<close>
  always acts.
\<close>

record MediaState =
  "context" :: MediaValuesContext
  changed :: bool

definition initialState :: MediaState where
  "initialState = \<lparr> context = initial_context, changed = False \<rparr>"

definition send :: "MediaState \<Rightarrow> UpdateValues \<Rightarrow> MediaState" where
  "send state updateValues =
     \<lparr> context = updateMedia (context state) updateValues, changed = True \<rparr>"

text \<open>\<open>getSnapshot\<close>: the \<open>state.context\<close> of the service.\<close>

definition getSnapshot :: "MediaState \<Rightarrow> MediaValuesContext" where
  "getSnapshot state = context state"

text \<open>
  The shallow merge of the specification, field by field: a field of the merged
  snapshot is the value given by the last partial update that has the field, and the
  default when none has it.
\<close>

fun last_given :: "'a \<Rightarrow> 'a option list \<Rightarrow> 'a" where
  "last_given d [] = d"
| "last_given d (None # xs) = last_given d xs"
| "last_given d (Some v # xs) = last_given v xs"

definition shallow_merge_all ::
  "MediaValuesContext \<Rightarrow> UpdateValues list \<Rightarrow> MediaValuesContext" where
  "shallow_merge_all d ps =
     \<lparr> currentTime = last_given (currentTime d) (map currentTime_u ps),
       seeking = last_given (seeking d) (map seeking_u ps),
       duration = last_given (duration d) (map duration_u ps),
       volume = last_given (volume d) (map volume_u ps),
       playbackRate = last_given (playbackRate d) (map playbackRate_u ps),
       paused = last_given (paused d) (map paused_u ps),
       muted = last_given (muted d) (map muted_u ps),
       ended = last_given (ended d) (map ended_u ps),
       status = last_given (status d) (map status_u ps),
       rotate_deg = last_given (rotate_deg d) (map rotate_u ps),
       error = last_given (error d) (map error_u ps),
       buffered = last_given (buffered d) (map buffered_u ps),
       autoBitrateEnabled = last_given (autoBitrateEnabled d) (map autoBitrateEnabled_u ps),
       bitrateInfos = last_given (bitrateInfos d) (map bitrateInfos_u ps),
       currentBirateIndex =
         last_given (currentBirateIndex d) (map currentBirateIndex_u ps) \<rparr>"

section \<open>The provider (MediaProvider)\<close>

subsection \<open>The objects the provider holds and the runtime around it\<close>

text \<open>
  The attributes of the bound \<open>HTMLMediaElement\<close> that the provider reads or writes.
\<close>

record MediaElement =
  el_currentTime :: jsnum
  el_duration :: jsnum
  el_ended :: bool
  el_volume :: jsnum
  el_muted :: bool
  el_playbackRate :: jsnum
  el_buffered :: TimeRanges

text \<open>The calls the provider makes on the element, logged in the order they are made.\<close>

datatype media_call = CallPlay | CallPause

text \<open>
  The \<open>Hls\<close> instance: its \<open>currentLevel\<close>, and the calls made on it.
\<close>

datatype hls_call = StartLoad | RecoverMediaError | Destroy

record Hls =
  currentLevel :: jsnum
  hls_calls :: "hls_call list"

datatype ErrorTypes = NETWORK_ERROR | MEDIA_ERROR | KEY_SYSTEM_ERROR | MUX_ERROR | OTHER_ERROR

record ErrorData =
  fatal :: bool
  error_type :: ErrorTypes

datatype promise_state = Pending | Fulfilled | Rejected

text \<open>
  The refs of the component (\<open>_playPromise\<close>, \<open>_pausedRef\<close>, \<open>_hlsRef\<close>, \<open>_mediaRef\<close>,
  \<open>_timeoutLoadingId\<close>, \<open>_mediaServiceRef\<close>), its prop \<open>initialDuration\<close>, and the
  runtime it runs in:
  \<^item> \<open>now\<close>, the clock in milliseconds; \<open>timers\<close>, the pending timeouts as pairs of
    timer id and due time (the only callback ever scheduled is the one of
    \<open>setLoadingStatus\<close>); \<open>next_timer_id\<close>, the id the next \<open>setTimeout\<close> returns
    (ids are positive);
  \<^item> \<open>promises\<close>, the state of every promise \<open>media.play()\<close> has returned, a promise
    being named by its index; \<open>play_returns_promise\<close>, whether \<open>play()\<close> returns a
    promise at all (it returns \<open>undefined\<close> in Internet Explorer);
  \<^item> \<open>awaiting\<close>, the calls of \<open>setPaused\<close> suspended at \<open>await playPromise\<close>, each
    named by the promise it awaits, oldest first;
  \<^item> \<open>media_calls\<close>, the log of \<open>play()\<close> and \<open>pause()\<close> calls on the element;
  \<^item> \<open>time_ranges_objects\<close>, the ranges of the \<open>TimeRanges\<close> objects read from
    \<open>media.buffered\<close> and stored in the snapshot, the object \<open>TimeRangesObject n\<close> being
    the \<open>n\<close>-th of them.
\<close>

record Provider =
  playPromise :: "nat option"
  pausedRef :: bool
  hlsRef :: "Hls option"
  mediaRef :: "MediaElement option"
  timeoutLoadingId :: "nat option"
  mediaServiceRef :: MediaState
  initialDuration :: jsnum
  now :: nat
  timers :: "(nat \<times> nat) list"
  next_timer_id :: nat
  promises :: "promise_state list"
  play_returns_promise :: bool
  awaiting :: "nat list"
  media_calls :: "media_call list"
  time_ranges_objects :: "TimeRanges list"

definition initial_provider :: "jsnum \<Rightarrow> bool \<Rightarrow> Provider" where
  "initial_provider dur async_play =
     \<lparr> playPromise = None, pausedRef = True, hlsRef = None, mediaRef = None,
       timeoutLoadingId = None, mediaServiceRef = initialState, initialDuration = dur,
       now = 0, timers = [], next_timer_id = 1, promises = [],
       play_returns_promise = async_play, awaiting = [], media_calls = [],
       time_ranges_objects = [] \<rparr>"

text \<open>
  What a call does besides changing the state: it returns, or it throws. A state change
  made before the throw stays.
\<close>

datatype err = MediaNotAvailable | HlsNotAvailable | TypeError

datatype outcome = Returned | Threw err

definition updateMediaService :: "UpdateValues \<Rightarrow> Provider \<Rightarrow> Provider" where
  "updateMediaService updateValues p =
     p\<lparr>mediaServiceRef := send (mediaServiceRef p) updateValues\<rparr>"

definition getMedia :: "Provider \<Rightarrow> err + MediaElement" where
  "getMedia p = (case mediaRef p of Some media \<Rightarrow> Inr media | None \<Rightarrow> Inl MediaNotAvailable)"

definition getHls :: "Provider \<Rightarrow> err + Hls" where
  "getHls p = (case hlsRef p of Some hls \<Rightarrow> Inr hls | None \<Rightarrow> Inl HlsNotAvailable)"

definition releaseHlsResource :: "Provider \<Rightarrow> Provider" where
  "releaseHlsResource p =
     (case hlsRef p of
        Some hls \<Rightarrow> p\<lparr>hlsRef := Some (hls\<lparr>hls_calls := hls_calls hls @ [Destroy]\<rparr>)\<rparr>
      | None \<Rightarrow> p)"

subsection \<open>The handlers of the streaming adapter's events\<close>

record Level =
  level_bitrate :: jsnum
  level_width :: "jsnum option"
  level_height :: "jsnum option"

text \<open>\<open>x || 0\<close> on an optional number: 0 for undefined, 0 and NaN.\<close>

definition or_zero :: "jsnum option \<Rightarrow> jsnum" where
  "or_zero x = (case x of None \<Rightarrow> Fin 0 | Some v \<Rightarrow> if v = NaN \<or> v = Fin 0 then Fin 0 else v)"

definition onManifestParsed :: "Level list \<Rightarrow> Provider \<Rightarrow> Provider" where
  "onManifestParsed levels p =
     updateMediaService
       (no_values\<lparr>bitrateInfos_u := Some (map (\<lambda>level.
          \<lparr> bitrate = level_bitrate level, width = or_zero (level_width level),
            height = or_zero (level_height level) \<rparr>) levels)\<rparr>) p"

definition onLevelSwitched :: "jsnum \<Rightarrow> Provider \<Rightarrow> Provider" where
  "onLevelSwitched level p = updateMediaService (no_values\<lparr>currentBirateIndex_u := Some level\<rparr>) p"

text \<open>
  The handler of \<open>Hls.Events.ERROR\<close>, on the instance \<open>newHls\<close> it was registered on
  and the provider.
\<close>

definition onHlsError :: "ErrorData \<Rightarrow> Hls \<times> Provider \<Rightarrow> Hls \<times> Provider" where
  "onHlsError data hp =
     (case hp of (newHls, p) \<Rightarrow>
        if fatal data then
          (case error_type data of
             NETWORK_ERROR \<Rightarrow>
               (newHls\<lparr>hls_calls := hls_calls newHls @ [StartLoad]\<rparr>,
                updateMediaService (no_values\<lparr>status_u := Some RECOVERING\<rparr>) p)
           | MEDIA_ERROR \<Rightarrow>
               (newHls\<lparr>hls_calls := hls_calls newHls @ [RecoverMediaError]\<rparr>,
                updateMediaService (no_values\<lparr>status_u := Some RECOVERING\<rparr>) p)
           | _ \<Rightarrow>
               (newHls\<lparr>hls_calls := hls_calls newHls @ [Destroy]\<rparr>,
                updateMediaService (no_values\<lparr>status_u := Some ERROR\<rparr>) p))
        else (newHls, p))"

subsection \<open>Readiness and the loading timer\<close>

text \<open>
  The array \<open>timeRanges\<close> of \<open>checkMediaHasDataToPlay\<close>: for every index,
  \<open>[Math.floor(start) === 0 ? Math.floor(start) : start, end]\<close>.
\<close>

definition timeRanges :: "TimeRanges \<Rightarrow> TimeRanges" where
  "timeRanges buf =
     map (\<lambda>(start, end).
       (if js_seq (Math_floor start) (Fin 0) then Math_floor start else start, end)) buf"

definition hasDataAt :: "jsnum \<Rightarrow> TimeRanges \<Rightarrow> bool" where
  "hasDataAt t buf =
     list_ex (\<lambda>(start, end). js_ge t start \<and> js_le t end) (timeRanges buf)"

text \<open>
  \<open>checkMediaHasDataToPlay\<close> reads \<open>media.buffered\<close> for its length and for every start
  and end; the objects these reads create are dropped at once and are not recorded.
\<close>

definition checkMediaHasDataToPlay :: "Provider \<Rightarrow> err + bool" where
  "checkMediaHasDataToPlay p =
     (case getMedia p of
        Inl e \<Rightarrow> Inl e
      | Inr media \<Rightarrow> Inr (hasDataAt (el_currentTime media) (el_buffered media)))"

definition clearTimeout :: "nat \<Rightarrow> Provider \<Rightarrow> Provider" where
  "clearTimeout timeoutId p = p\<lparr>timers := filter (\<lambda>(i, due). i \<noteq> timeoutId) (timers p)\<rparr>"

text \<open>\<open>if (timeoutId) clearTimeout(timeoutId)\<close>: undefined and 0 are falsy.\<close>

definition clearLoadingTimeout :: "Provider \<Rightarrow> Provider" where
  "clearLoadingTimeout p =
     (case timeoutLoadingId p of
        None \<Rightarrow> p
      | Some timeoutId \<Rightarrow> if timeoutId \<noteq> 0 then clearTimeout timeoutId p else p)"

definition setLoadingStatus :: "Provider \<Rightarrow> Provider" where
  "setLoadingStatus p =
     (let p1 = clearLoadingTimeout p;
          newId = next_timer_id p1
      in p1\<lparr>timers := timers p1 @ [(newId, now p1 + 1000)],
             next_timer_id := Suc newId,
             timeoutLoadingId := Some newId\<rparr>)"

definition setCanPlayStatus :: "Provider \<Rightarrow> Provider" where
  "setCanPlayStatus p =
     updateMediaService (no_values\<lparr>status_u := Some CAN_PLAY\<rparr>) (clearLoadingTimeout p)"

text \<open>The callback the timer runs: \<open>() => updateMediaService({ status: LOADING })\<close>.\<close>

definition loadingTimeoutCallback :: "Provider \<Rightarrow> Provider" where
  "loadingTimeoutCallback p = updateMediaService (no_values\<lparr>status_u := Some LOADING\<rparr>) p"

subsection \<open>The calls on the element and the handlers of its events\<close>

definition media_pause :: "Provider \<Rightarrow> Provider" where
  "media_pause p = p\<lparr>media_calls := media_calls p @ [CallPause]\<rparr>"

text \<open>
  \<open>media.play()\<close>: the call is logged; the value returned is a new pending promise, or
  \<open>undefined\<close> where \<open>play()\<close> returns none.
\<close>

definition media_play :: "Provider \<Rightarrow> nat option \<times> Provider" where
  "media_play p =
     (if play_returns_promise p
      then (Some (length (promises p)),
            p\<lparr>promises := promises p @ [Pending], media_calls := media_calls p @ [CallPlay]\<rparr>)
      else (None, p\<lparr>media_calls := media_calls p @ [CallPlay]\<rparr>))"

text \<open>
  Reading \<open>media.buffered\<close> to keep the object: a new object with the ranges the element
  has buffered at that moment.
\<close>

definition media_buffered :: "MediaElement \<Rightarrow> Provider \<Rightarrow> TimeRangesObject \<times> Provider" where
  "media_buffered media p =
     (TimeRangesObject (length (time_ranges_objects p)),
      p\<lparr>time_ranges_objects := time_ranges_objects p @ [el_buffered media]\<rparr>)"

definition onLoadedMetadata :: "Provider \<Rightarrow> outcome \<times> Provider" where
  "onLoadedMetadata p =
     (if \<not> pausedRef p then
        (case getMedia p of
           Inl e \<Rightarrow> (Threw e, p)
         | Inr media \<Rightarrow> (Returned, snd (media_play p)))
      else (Returned, p))"

definition onSeeking :: "Provider \<Rightarrow> outcome \<times> Provider" where
  "onSeeking p =
     (case getMedia p of
        Inl e \<Rightarrow> (Threw e, p)
      | Inr media \<Rightarrow>
          (let p1 = updateMediaService
                 (no_values\<lparr>seeking_u := Some True,
                    currentTime_u := Some (el_currentTime media),
                    ended_u := Some (el_ended media)\<rparr>) p
           in case checkMediaHasDataToPlay p1 of
                Inl e \<Rightarrow> (Threw e, p1)
              | Inr hasData \<Rightarrow>
                  if \<not> hasData then (Returned, setLoadingStatus p1) else (Returned, p1)))"

definition onSeeked :: "Provider \<Rightarrow> outcome \<times> Provider" where
  "onSeeked p = (Returned, updateMediaService (no_values\<lparr>seeking_u := Some False\<rparr>) p)"

definition onRateChange :: "Provider \<Rightarrow> outcome \<times> Provider" where
  "onRateChange p =
     (case getMedia p of
        Inl e \<Rightarrow> (Threw e, p)
      | Inr media \<Rightarrow>
          (Returned,
           updateMediaService (no_values\<lparr>playbackRate_u := Some (el_playbackRate media)\<rparr>) p))"

definition onVolumeChange :: "Provider \<Rightarrow> outcome \<times> Provider" where
  "onVolumeChange p =
     (case getMedia p of
        Inl e \<Rightarrow> (Threw e, p)
      | Inr media \<Rightarrow>
          (Returned,
           updateMediaService
             (no_values\<lparr>muted_u := Some (el_muted media), volume_u := Some (el_volume media)\<rparr>) p))"

definition onPause :: "Provider \<Rightarrow> outcome \<times> Provider" where
  "onPause p =
     (let p1 = p\<lparr>pausedRef := True\<rparr>
      in case getMedia p1 of
           Inl e \<Rightarrow> (Threw e, p1)
         | Inr media \<Rightarrow>
             (Returned,
              updateMediaService
                (no_values\<lparr>paused_u := Some True, ended_u := Some (el_ended media)\<rparr>) p1))"

definition onPlay :: "Provider \<Rightarrow> outcome \<times> Provider" where
  "onPlay p =
     (let p1 = p\<lparr>pausedRef := False\<rparr>
      in case getMedia p1 of
           Inl e \<Rightarrow> (Threw e, p1)
         | Inr media \<Rightarrow>
             (Returned,
              updateMediaService
                (no_values\<lparr>paused_u := Some False, ended_u := Some (el_ended media)\<rparr>) p1))"

definition onCanPlay :: "Provider \<Rightarrow> outcome \<times> Provider" where
  "onCanPlay p = (Returned, setCanPlayStatus p)"

definition onProgress :: "Provider \<Rightarrow> outcome \<times> Provider" where
  "onProgress p =
     (case checkMediaHasDataToPlay p of
        Inl e \<Rightarrow> (Threw e, p)
      | Inr hasData \<Rightarrow>
          (let p1 = (if hasData then setCanPlayStatus p else p)
           in case getMedia p1 of
                Inl e \<Rightarrow> (Threw e, p1)
              | Inr media \<Rightarrow>
                  (case media_buffered media p1 of
                     (buffered', p2) \<Rightarrow>
                       (Returned,
                        updateMediaService
                          (no_values\<lparr>buffered_u := Some (Some buffered')\<rparr>) p2))))"

definition onWaiting :: "Provider \<Rightarrow> outcome \<times> Provider" where
  "onWaiting p =
     (case checkMediaHasDataToPlay p of
        Inl e \<Rightarrow> (Threw e, p)
      | Inr hasData \<Rightarrow>
          if hasData then (Returned, setCanPlayStatus p) else (Returned, setLoadingStatus p))"

definition onTimeUpdate :: "Provider \<Rightarrow> outcome \<times> Provider" where
  "onTimeUpdate p =
     (case getMedia p of
        Inl e \<Rightarrow> (Threw e, p)
      | Inr media \<Rightarrow>
          (Returned,
           updateMediaService (no_values\<lparr>currentTime_u := Some (el_currentTime media)\<rparr>) p))"

definition onDurationChange :: "Provider \<Rightarrow> outcome \<times> Provider" where
  "onDurationChange p =
     (case getMedia p of
        Inl e \<Rightarrow> (Threw e, p)
      | Inr media \<Rightarrow>
          (let duration' = Math_round (el_duration media)
           in if \<not> js_seq duration' PInf
              then (Returned, updateMediaService (no_values\<lparr>duration_u := Some duration'\<rparr>) p)
              else (Returned, p)))"

definition onError :: "Provider \<Rightarrow> outcome \<times> Provider" where
  "onError p = (Returned, updateMediaService (no_values\<lparr>status_u := Some ERROR\<rparr>) p)"

subsection \<open>The control methods\<close>

text \<open>
  Assigning to \<open>currentTime\<close>, \<open>playbackRate\<close> or \<open>volume\<close> of the element: these
  attributes are of the IDL type \<open>double\<close>, so a value that is not finite is refused
  with a \<open>TypeError\<close>.
\<close>

fun is_finite :: "jsnum \<Rightarrow> bool" where
  "is_finite (Fin r) = True"
| "is_finite x = False"

definition setCurrentTime :: "jsnum \<Rightarrow> Provider \<Rightarrow> outcome \<times> Provider" where
  "setCurrentTime currentTime' p =
     (case getMedia p of
        Inl e \<Rightarrow> (Threw e, p)
      | Inr media \<Rightarrow>
          (let newCurrentTime = clamp currentTime' (Fin 0) (el_duration media)
           in if is_finite newCurrentTime
              then (Returned, p\<lparr>mediaRef := Some (media\<lparr>el_currentTime := newCurrentTime\<rparr>)\<rparr>)
              else (Threw TypeError, p)))"

definition setPlaybackRate :: "jsnum \<Rightarrow> Provider \<Rightarrow> outcome \<times> Provider" where
  "setPlaybackRate playbackRate' p =
     (case getMedia p of
        Inl e \<Rightarrow> (Threw e, p)
      | Inr media \<Rightarrow>
          if is_finite playbackRate'
          then (Returned, p\<lparr>mediaRef := Some (media\<lparr>el_playbackRate := playbackRate'\<rparr>)\<rparr>)
          else (Threw TypeError, p))"

definition setVolume :: "jsnum \<Rightarrow> Provider \<Rightarrow> outcome \<times> Provider" where
  "setVolume volume' p =
     (let newVolume = clamp volume' (Fin 0) (Fin 1)
      in case getMedia p of
           Inl e \<Rightarrow> (Threw e, p)
         | Inr media \<Rightarrow>
             if is_finite newVolume
             then (Returned, p\<lparr>mediaRef := Some (media\<lparr>el_volume := newVolume\<rparr>)\<rparr>)
             else (Threw TypeError, p))"

definition setMuted :: "bool \<Rightarrow> Provider \<Rightarrow> outcome \<times> Provider" where
  "setMuted muted' p =
     (case getMedia p of
        Inl e \<Rightarrow> (Threw e, p)
      | Inr media \<Rightarrow> (Returned, p\<lparr>mediaRef := Some (media\<lparr>el_muted := muted'\<rparr>)\<rparr>))"

text \<open>
  \<open>setPaused\<close> is an async function. Up to its \<open>await\<close> it runs at once. At
  \<open>await playPromise\<close> the call is suspended: it is added to \<open>awaiting\<close>, and
  \<open>setPaused_resume\<close> is the rest of the body, run when the awaited promise is
  fulfilled. When the promise is rejected the \<open>await\<close> throws and the rest of the body
  is not run. A throw inside the async function rejects the promise it returns.
\<close>

definition setPaused :: "bool \<Rightarrow> Provider \<Rightarrow> outcome \<times> Provider" where
  "setPaused paused' p =
     (case getMedia p of
        Inl e \<Rightarrow> (Threw e, p)
      | Inr media \<Rightarrow>
          (let p1 = p\<lparr>pausedRef := paused'\<rparr>;
               p2 = updateMediaService (no_values\<lparr>paused_u := Some paused'\<rparr>) p1
           in if paused' then
                (case playPromise p2 of
                   Some pr \<Rightarrow> (Returned, p2\<lparr>awaiting := awaiting p2 @ [pr]\<rparr>)
                 | None \<Rightarrow> (Returned, media_pause p2))
              else
                (case media_play p2 of
                   (pr, p3) \<Rightarrow> (Returned, p3\<lparr>playPromise := pr\<rparr>))))"

definition setPaused_resume :: "Provider \<Rightarrow> Provider" where
  "setPaused_resume p =
     (let p1 = p\<lparr>playPromise := None\<rparr>
      in if pausedRef p1 then media_pause p1 else p1)"

definition setCurrentBirateIndex :: "jsnum \<Rightarrow> Provider \<Rightarrow> outcome \<times> Provider" where
  "setCurrentBirateIndex bitrateIndex p =
     (let p1 = updateMediaService
            (no_values\<lparr>autoBitrateEnabled_u := Some (js_seq bitrateIndex DEFAULT_AUTO_BITRATE_INDEX),
               currentBirateIndex_u := Some bitrateIndex\<rparr>) p
      in case getHls p1 of
           Inl e \<Rightarrow> (Threw e, p1)
         | Inr hlsInstance \<Rightarrow>
             if \<not> js_seq (currentLevel hlsInstance) bitrateIndex
             then (Returned, p1\<lparr>hlsRef := Some (hlsInstance\<lparr>currentLevel := bitrateIndex\<rparr>)\<rparr>)
             else (Returned, p1))"

definition setRotate :: "jsnum \<Rightarrow> Provider \<Rightarrow> outcome \<times> Provider" where
  "setRotate rotate' p =
     (Returned, updateMediaService (no_values\<lparr>rotate_u := Some (js_rem rotate' (Fin 360))\<rparr>) p)"

definition applyInitialDuration :: "Provider \<Rightarrow> outcome \<times> Provider" where
  "applyInitialDuration p =
     (Returned, updateMediaService (no_values\<lparr>duration_u := Some (initialDuration p)\<rparr>) p)"

subsection \<open>Attaching a media source\<close>

text \<open>
  The effect run for a media source: the element must be bound, the previous adapter is
  released, and where \<open>Hls.isSupported()\<close> a new instance is stored in \<open>_hlsRef\<close> (a
  new instance has \<open>currentLevel\<close> -1); where it is not supported the source is left to
  the element itself, which does not concern the provider's state. The cleanup of the
  effect is \<open>releaseHlsResource\<close>.
\<close>

definition attachMediaSource :: "bool \<Rightarrow> Provider \<Rightarrow> outcome \<times> Provider" where
  "attachMediaSource hlsSupported p =
     (case getMedia p of
        Inl e \<Rightarrow> (Threw e, p)
      | Inr media \<Rightarrow>
          (let p1 = releaseHlsResource p
           in if hlsSupported
              then (Returned, p1\<lparr>hlsRef := Some \<lparr> currentLevel = Fin (- 1), hls_calls = [] \<rparr>\<rparr>)
              else (Returned, p1)))"

section \<open>The session as a sequence of events\<close>

text \<open>
  Everything runs on one event loop, one task after the other. A task is: the browser
  changing the attributes of the element (or binding it), an event of the element, an
  event of the streaming adapter, a call of a control method, time passing, a play
  promise being settled, the media source being attached, the cleanup of the provider.
\<close>

datatype dom_event =
  LoadedMetadata | Seeking | Seeked | RateChange | VolumeChange | CanPlay | Waiting
  | Pause | Play | TimeUpdate | Progress | DurationChange | Error

datatype control =
  SetCurrentTime jsnum | SetPlaybackRate jsnum | SetVolume jsnum | SetPaused bool
  | SetMuted bool | SetRotate jsnum | SetCurrentBirateIndex jsnum | ApplyInitialDuration

datatype hls_event = HlsError ErrorData | ManifestParsed "Level list" | LevelSwitched jsnum

datatype event =
  ElementChanges MediaElement
  | Dom dom_event
  | Adapter hls_event
  | Control control
  | Elapse nat
  | PlaySettles nat bool
  | MediaSource bool
  | Cleanup

fun dom_handler :: "dom_event \<Rightarrow> Provider \<Rightarrow> outcome \<times> Provider" where
  "dom_handler LoadedMetadata = onLoadedMetadata"
| "dom_handler Seeking = onSeeking"
| "dom_handler Seeked = onSeeked"
| "dom_handler RateChange = onRateChange"
| "dom_handler VolumeChange = onVolumeChange"
| "dom_handler CanPlay = onCanPlay"
| "dom_handler Waiting = onWaiting"
| "dom_handler Pause = onPause"
| "dom_handler Play = onPlay"
| "dom_handler TimeUpdate = onTimeUpdate"
| "dom_handler Progress = onProgress"
| "dom_handler DurationChange = onDurationChange"
| "dom_handler Error = onError"

fun control_call :: "control \<Rightarrow> Provider \<Rightarrow> outcome \<times> Provider" where
  "control_call (SetCurrentTime t) = setCurrentTime t"
| "control_call (SetPlaybackRate r) = setPlaybackRate r"
| "control_call (SetVolume v) = setVolume v"
| "control_call (SetPaused b) = setPaused b"
| "control_call (SetMuted b) = setMuted b"
| "control_call (SetRotate r) = setRotate r"
| "control_call (SetCurrentBirateIndex i) = setCurrentBirateIndex i"
| "control_call ApplyInitialDuration = applyInitialDuration"

text \<open>
  An event of the adapter reaches the handlers registered on the instance in \<open>_hlsRef\<close>;
  \<open>destroy()\<close> removes every handler, so a destroyed instance delivers nothing.
\<close>

definition adapter_event :: "hls_event \<Rightarrow> Provider \<Rightarrow> Provider" where
  "adapter_event ev p =
     (case hlsRef p of
        None \<Rightarrow> p
      | Some hls \<Rightarrow>
          if Destroy \<in> set (hls_calls hls) then p
          else (case ev of
                  HlsError data \<Rightarrow>
                    (case onHlsError data (hls, p) of (hls', p') \<Rightarrow> p'\<lparr>hlsRef := Some hls'\<rparr>)
                | ManifestParsed levels \<Rightarrow> onManifestParsed levels p
                | LevelSwitched level \<Rightarrow> onLevelSwitched level p))"

text \<open>
  Time passing: the clock advances, and every timeout that has become due is removed
  and its callback run, in the order the timeouts were set.
\<close>

definition run_timers :: "Provider \<Rightarrow> Provider" where
  "run_timers p =
     fold (\<lambda>_. loadingTimeoutCallback) (filter (\<lambda>(i, due). due \<le> now p) (timers p))
       (p\<lparr>timers := filter (\<lambda>(i, due). \<not> due \<le> now p) (timers p)\<rparr>)"

definition elapse :: "nat \<Rightarrow> Provider \<Rightarrow> Provider" where
  "elapse dt p = run_timers (p\<lparr>now := now p + dt\<rparr>)"

text \<open>
  The jobs run after a task: every suspended \<open>setPaused\<close> whose promise is fulfilled
  runs the rest of its body, one whose promise is rejected ends there, one whose promise
  is pending stays suspended.
\<close>

definition promise_state_of :: "Provider \<Rightarrow> nat \<Rightarrow> promise_state" where
  "promise_state_of p pr = (if pr < length (promises p) then promises p ! pr else Pending)"

definition resume_one :: "nat \<Rightarrow> Provider \<Rightarrow> Provider" where
  "resume_one pr p =
     (case promise_state_of p pr of
        Pending \<Rightarrow> p\<lparr>awaiting := awaiting p @ [pr]\<rparr>
      | Fulfilled \<Rightarrow> setPaused_resume p
      | Rejected \<Rightarrow> p)"

definition microtasks :: "Provider \<Rightarrow> Provider" where
  "microtasks p = fold resume_one (awaiting p) (p\<lparr>awaiting := []\<rparr>)"

text \<open>A promise is settled once: settling a promise that is not pending does nothing.\<close>

definition settle :: "nat \<Rightarrow> bool \<Rightarrow> Provider \<Rightarrow> Provider" where
  "settle pr ok p =
     (if pr < length (promises p) \<and> promises p ! pr = Pending
      then p\<lparr>promises := (promises p)[pr := (if ok then Fulfilled else Rejected)]\<rparr>
      else p)"

fun step :: "event \<Rightarrow> Provider \<Rightarrow> Provider" where
  "step (ElementChanges media) p = p\<lparr>mediaRef := Some media\<rparr>"
| "step (Dom ev) p = snd (dom_handler ev p)"
| "step (Adapter ev) p = adapter_event ev p"
| "step (Control c) p = microtasks (snd (control_call c p))"
| "step (Elapse dt) p = elapse dt p"
| "step (PlaySettles pr ok) p = microtasks (settle pr ok p)"
| "step (MediaSource hlsSupported) p = snd (attachMediaSource hlsSupported p)"
| "step Cleanup p = releaseHlsResource p"

definition run :: "event list \<Rightarrow> Provider \<Rightarrow> Provider" where
  "run evs p = fold step evs p"

text \<open>The \<open>status\<close> of the snapshot a provider holds.\<close>

definition status_of :: "Provider \<Rightarrow> MediaStatus" where
  "status_of p = status (context (mediaServiceRef p))"

definition snapshot_of :: "Provider \<Rightarrow> MediaValuesContext" where
  "snapshot_of p = getSnapshot (mediaServiceRef p)"

section \<open>The consumer hook (MediaContext)\<close>

text \<open>
  The selector a consumer passes to \<open>useMediaContext\<close>: none, which is lodash's
  \<open>identity\<close> (the test \<open>selector === identity\<close> compares references, so only the
  default passes it), or a function of its own. The value a hook holds in
  \<open>partialState\<close> is then the whole snapshot, or the selected slice.
\<close>

datatype 'a selector = Identity | Selector "MediaValuesContext \<Rightarrow> 'a"

datatype 'a selected = Whole MediaValuesContext | Slice 'a

definition select :: "'a selector \<Rightarrow> MediaValuesContext \<Rightarrow> 'a selected" where
  "select selector c = (case selector of Identity \<Rightarrow> Whole c | Selector f \<Rightarrow> Slice (f c))"

text \<open>
  lodash \<open>isEqual\<close>: on plain data (numbers with \<open>NaN\<close> equal to itself, booleans,
  strings, arrays and objects of these) it is equality of the values; two host objects,
  such as the \<open>TimeRanges\<close> in \<open>buffered\<close>, are equal only when they are the same
  object. With \<open>buffered\<close> holding a reference, both are equality of what the slice
  holds. A selector is a function of the snapshot: the ranges of a \<open>TimeRanges\<close> object
  never changing, whatever a selector reads from the object is determined by the
  reference.
\<close>

definition isEqual :: "'a \<Rightarrow> 'a \<Rightarrow> bool" where
  "isEqual a b = (a = b)"

text \<open>
  The listener a hook subscribes, for its selector and the \<open>partialState\<close> of the
  render that subscribed it, called with the state of the service. The result is the
  argument of the call of \<open>setPartialState\<close>, when there is one.
\<close>

definition listener :: "'a selector \<Rightarrow> 'a selected \<Rightarrow> MediaState \<Rightarrow> 'a selected option" where
  "listener selector partialState state =
     (if changed state \<noteq> True then None
      else (case selector of
              Identity \<Rightarrow> Some (select selector (context state))
            | Selector f \<Rightarrow>
                if \<not> isEqual (select selector (context state)) partialState
                then Some (select selector (context state))
                else None))"

text \<open>
  A consumer is rendered again when its listener calls \<open>setPartialState\<close>: the value
  given is then never the object held before (it is the snapshot object \<open>updateMedia\<close>
  has just built, or a slice not equal to the one held).
\<close>

definition rerenders :: "'a selector \<Rightarrow> 'a selected \<Rightarrow> MediaState \<Rightarrow> bool" where
  "rerenders selector partialState state = (listener selector partialState state \<noteq> None)"

text \<open>An update all of whose fields have the value the snapshot already has.\<close>

definition same_or_absent :: "'a \<Rightarrow> 'a option \<Rightarrow> bool" where
  "same_or_absent cur new = (case new of None \<Rightarrow> True | Some v \<Rightarrow> v = cur)"

definition identical_to_current :: "UpdateValues \<Rightarrow> MediaValuesContext \<Rightarrow> bool" where
  "identical_to_current u c =
     (same_or_absent (currentTime c) (currentTime_u u) \<and>
      same_or_absent (seeking c) (seeking_u u) \<and>
      same_or_absent (duration c) (duration_u u) \<and>
      same_or_absent (volume c) (volume_u u) \<and>
      same_or_absent (playbackRate c) (playbackRate_u u) \<and>
      same_or_absent (paused c) (paused_u u) \<and>
      same_or_absent (muted c) (muted_u u) \<and>
      same_or_absent (ended c) (ended_u u) \<and>
      same_or_absent (status c) (status_u u) \<and>
      same_or_absent (rotate_deg c) (rotate_u u) \<and>
      same_or_absent (error c) (error_u u) \<and>
      same_or_absent (buffered c) (buffered_u u) \<and>
      same_or_absent (autoBitrateEnabled c) (autoBitrateEnabled_u u) \<and>
      same_or_absent (bitrateInfos c) (bitrateInfos_u u) \<and>
      same_or_absent (currentBirateIndex c) (currentBirateIndex_u u))"

section \<open>Example sessions\<close>

text \<open>
  A bound element whose buffered ranges are \<open>[[0.0056, 10], [15, 20]]\<close>, at time 0, of a
  live stream (duration \<open>Infinity\<close>), and a provider just started that holds it.
\<close>

definition example_media :: MediaElement where
  "example_media = \<lparr> el_currentTime = Fin 0, el_duration = PInf, el_ended = False,
     el_volume = Fin 1, el_muted = False, el_playbackRate = Fin 1,
     el_buffered = [(Fin 0.0056, Fin 10), (Fin 15, Fin 20)] \<rparr>"

definition example_provider :: Provider where
  "example_provider = (initial_provider (Fin 0) True)\<lparr>mediaRef := Some example_media\<rparr>"


text \<open>
  An element that has buffered two short ranges inside the first second,
  \<open>[[0.1, 0.2], [0.5, 0.9]]\<close>, and stands at 0.3, in the gap between them.
\<close>

definition gap_media :: MediaElement where
  "gap_media = \<lparr> el_currentTime = Fin 0.3, el_duration = Fin 60, el_ended = False,
     el_volume = Fin 1, el_muted = False, el_playbackRate = Fin 1,
     el_buffered = [(Fin 0.1, Fin 0.2), (Fin 0.5, Fin 0.9)] \<rparr>"

definition gap_provider :: Provider where
  "gap_provider = (initial_provider (Fin 0) True)\<lparr>mediaRef := Some gap_media\<rparr>"

text \<open>
  The example element moved to 12, between its two buffered ranges; and a session in
  which the element was bound, could play, and was then moved there.
\<close>

definition outside_media :: MediaElement where
  "outside_media = example_media\<lparr>el_currentTime := Fin 12\<rparr>"

definition seek_provider :: Provider where
  "seek_provider =
     run [ElementChanges example_media, Dom CanPlay, ElementChanges outside_media]
       (initial_provider (Fin 0) True)"

text \<open>
  A session in which the element was bound, could play, and was then moved to 0.3 with
  the buffered ranges \<open>[[0.1, 0.2], [0.5, 0.9]]\<close>: into the gap between them.
\<close>

definition gap_seek_provider :: Provider where
  "gap_seek_provider =
     run [ElementChanges example_media, Dom CanPlay, ElementChanges gap_media]
       (initial_provider (Fin 0) True)"


text \<open>
  Play, pause, play again, and then the promise of the first \<open>play()\<close> is fulfilled while
  that of the second is still pending.
\<close>

definition play_pause_play :: "event list" where
  "play_pause_play =
     [Control (SetPaused False), Control (SetPaused True), Control (SetPaused False),
      PlaySettles 0 True]"

section \<open>Notions used in the statements and proofs\<close>

text \<open>
  The normalisation of the buffered ranges as the specification words it: only the
  start of the earliest range is replaced by 0, when its floor is 0. A position is
  playable when it lies in one of the ranges so normalised, bounds included.
\<close>

fun spec_timeRanges :: "TimeRanges \<Rightarrow> TimeRanges" where
  "spec_timeRanges [] = []"
| "spec_timeRanges ((start, end) # rest) =
     (if js_seq (Math_floor start) (Fin 0) then Fin 0 else start, end) # rest"

definition spec_hasDataAt :: "jsnum \<Rightarrow> TimeRanges \<Rightarrow> bool" where
  "spec_hasDataAt t buf =
     list_ex (\<lambda>(start, end). js_ge t start \<and> js_le t end) (spec_timeRanges buf)"

text \<open>
  What the loading timer depends on: the pending timeouts, the clock, the next timer id
  and \<open>_timeoutLoadingId\<close>.
\<close>

definition timer_view :: "Provider \<Rightarrow> (nat \<times> nat) list \<times> nat \<times> nat \<times> nat option" where
  "timer_view p = (timers p, now p, next_timer_id p, timeoutLoadingId p)"

text \<open>The time that passes during a sequence of events.\<close>

fun elapsed :: "event list \<Rightarrow> nat" where
  "elapsed [] = 0"
| "elapsed (Elapse dt # evs) = dt + elapsed evs"
| "elapsed (_ # evs) = elapsed evs"

text \<open>
  An event, at the state it arrives in, \<open>cancels\<close> the loading timer when its handler
  calls \<open>setCanPlayStatus\<close>: \<open>canplay\<close> always, \<open>progress\<close> and \<open>waiting\<close> when the
  readiness check holds. It \<open>reschedules\<close> the timer when its handler calls
  \<open>setLoadingStatus\<close>: \<open>seeking\<close> and \<open>waiting\<close> when the readiness check fails. A
  sequence of events is \<open>undisturbed\<close> when none of them cancels or reschedules at the
  state it arrives in, and \<open>unrequested\<close> when none of them reschedules.
\<close>

definition cancels :: "event \<Rightarrow> Provider \<Rightarrow> bool" where
  "cancels e p =
     (e = Dom CanPlay
      \<or> ((e = Dom Progress \<or> e = Dom Waiting) \<and> checkMediaHasDataToPlay p = Inr True))"

definition reschedules :: "event \<Rightarrow> Provider \<Rightarrow> bool" where
  "reschedules e p =
     ((e = Dom Seeking \<or> e = Dom Waiting) \<and> checkMediaHasDataToPlay p = Inr False)"

fun undisturbed :: "event list \<Rightarrow> Provider \<Rightarrow> bool" where
  "undisturbed [] p = True"
| "undisturbed (e # evs) p =
     (\<not> cancels e p \<and> \<not> reschedules e p \<and> undisturbed evs (step e p))"

fun unrequested :: "event list \<Rightarrow> Provider \<Rightarrow> bool" where
  "unrequested [] p = True"
| "unrequested (e # evs) p = (\<not> reschedules e p \<and> unrequested evs (step e p))"

text \<open>
  At most one timeout is pending, and it is the one \<open>_timeoutLoadingId\<close> names.
\<close>

definition timer_inv :: "Provider \<Rightarrow> bool" where
  "timer_inv p =
     (next_timer_id p \<noteq> 0 \<and>
      (case timers p of
         [] \<Rightarrow> True
       | [(i, due)] \<Rightarrow> timeoutLoadingId p = Some i \<and> i \<noteq> 0
       | _ \<Rightarrow> False))"

text \<open>
  The three effects an event other than the passing of time can have on the loading
  timer and the status: it leaves the timer alone and does not set \<open>LOADING\<close>; it
  clears the timer and sets \<open>CAN_PLAY\<close>; it clears the timer, sets a new one and leaves
  the status.
\<close>

definition keeps :: "Provider \<Rightarrow> Provider \<Rightarrow> bool" where
  "keeps p q =
     (timer_view q = timer_view p \<and> (status_of q = LOADING \<longrightarrow> status_of p = LOADING))"

definition clears :: "Provider \<Rightarrow> Provider \<Rightarrow> bool" where
  "clears p q = (timer_view q = timer_view (clearLoadingTimeout p) \<and> status_of q = CAN_PLAY)"

definition requests :: "Provider \<Rightarrow> Provider \<Rightarrow> bool" where
  "requests p q = (timer_view q = timer_view (setLoadingStatus p) \<and> status_of q = status_of p)"

text \<open>
  \<open>quiet T\<close>: the status is not \<open>LOADING\<close> and no timeout can run before time \<open>T\<close>.
  \<open>idle\<close>: the status is not \<open>LOADING\<close> and no timeout is pending.
\<close>

definition quiet :: "nat \<Rightarrow> Provider \<Rightarrow> bool" where
  "quiet T p =
     (status_of p \<noteq> LOADING \<and> list_all (\<lambda>(i, due). T \<le> due) (timers p) \<and> T \<le> now p + 1000)"

definition idle :: "Provider \<Rightarrow> bool" where
  "idle p = (status_of p \<noteq> LOADING \<and> timers p = [])"

section \<open>The store\<close>

lemma last_given_Cons: "last_given d (x # xs) = last_given (spread_field d x) xs"
  by (cases x) (simp_all add: spread_field_def)

lemma shallow_merge_all_Nil: "shallow_merge_all d [] = d"
  by (simp add: shallow_merge_all_def)

lemma shallow_merge_all_Cons:
  "shallow_merge_all d (u # us) = shallow_merge_all (updateMedia d u) us"
  by (simp add: shallow_merge_all_def updateMedia_def last_given_Cons)

lemma context_foldl_send:
  "context (foldl send s us) = shallow_merge_all (context s) us"
  by (induction us arbitrary: s)
     (simp_all add: shallow_merge_all_Nil shallow_merge_all_Cons send_def)

lemma snapshot_of_updateMediaService:
  "snapshot_of (updateMediaService u p) = updateMedia (snapshot_of p) u"
  by (simp add: snapshot_of_def getSnapshot_def updateMediaService_def send_def)

lemma snapshot_fold_updateMediaService:
  "snapshot_of (fold updateMediaService us p) = shallow_merge_all (snapshot_of p) us"
  by (induction us arbitrary: p)
     (simp_all add: shallow_merge_all_Nil shallow_merge_all_Cons snapshot_of_updateMediaService)

lemma snapshot_of_initial_provider:
  "snapshot_of (initial_provider dur async_play) = initial_context"
  by (simp add: snapshot_of_def getSnapshot_def initial_provider_def initialState_def)

text \<open>
  Claim C1. Whatever sequence of updates the store receives after the session has
  started (sent to the service directly, or through \<open>updateMediaService\<close> of a
  provider), the snapshot it returns afterwards is the left-to-right shallow merge of
  the partial updates over the initial defaults: every field has the value of the last
  update that gave the field, and its default when none did. An update builds its
  snapshot from the previous one, which it only reads.
\<close>

theorem store_is_left_to_right_merge:
  "getSnapshot (foldl send initialState us) = shallow_merge_all initial_context us
   \<and> snapshot_of (fold updateMediaService us (initial_provider dur async_play))
       = shallow_merge_all initial_context us"
proof
  show "getSnapshot (foldl send initialState us) = shallow_merge_all initial_context us"
    by (simp add: getSnapshot_def context_foldl_send initialState_def)
  show "snapshot_of (fold updateMediaService us (initial_provider dur async_play))
       = shallow_merge_all initial_context us"
    by (simp only: snapshot_fold_updateMediaService snapshot_of_initial_provider)
qed

section \<open>Duration changes\<close>

lemma Math_round_PInf_iff: "js_seq (Math_round d) PInf \<longleftrightarrow> d = PInf"
  by (cases d) (simp_all add: js_seq_def)

lemma updateMedia_duration_only:
  "updateMedia c (no_values\<lparr>duration_u := Some d\<rparr>) = c\<lparr>duration := d\<rparr>"
  by (simp add: updateMedia_def no_values_def spread_field_def)

lemma round_half_near: "\<bar>of_int \<lfloor>r + 1 / 2\<rfloor> - r\<bar> \<le> 1 / (2::real)"
  by linarith

lemma Math_round_Fin_near:
  "\<exists>n::int. Math_round (Fin r) = Fin (of_int n) \<and> \<bar>of_int n - r\<bar> \<le> 1 / 2"
  using round_half_near [of r] by auto

text \<open>
  Claim C7. On a duration-change event of the bound element: when the duration the
  element reports is \<open>Infinity\<close> (an element reports no other infinite duration), the
  handler changes nothing, neither the stored duration nor any other field; otherwise
  the handler makes the one update of the field \<open>duration\<close>, to \<open>Math.round\<close> of the
  reported duration, and every other field of the snapshot keeps its value. For a
  finite reported duration the stored value is an integer at most half a second away
  from it.
\<close>

theorem duration_change:
  assumes "mediaRef p = Some media"
  shows "(el_duration media = PInf \<longrightarrow> onDurationChange p = (Returned, p))
       \<and> (el_duration media \<noteq> PInf \<longrightarrow>
            onDurationChange p
              = (Returned,
                 updateMediaService
                   (no_values\<lparr>duration_u := Some (Math_round (el_duration media))\<rparr>) p)
          \<and> snapshot_of (snd (onDurationChange p))
              = (snapshot_of p)\<lparr>duration := Math_round (el_duration media)\<rparr>)
       \<and> (\<forall>r. el_duration media = Fin r \<longrightarrow>
            (\<exists>n::int. duration (snapshot_of (snd (onDurationChange p))) = Fin (of_int n)
                \<and> \<bar>of_int n - r\<bar> \<le> 1 / 2))"
proof (intro conjI impI allI)
  assume "el_duration media = PInf"
  with assms show "onDurationChange p = (Returned, p)"
    by (simp add: onDurationChange_def getMedia_def js_seq_def)
next
  assume ne: "el_duration media \<noteq> PInf"
  with assms show upd: "onDurationChange p
      = (Returned,
         updateMediaService (no_values\<lparr>duration_u := Some (Math_round (el_duration media))\<rparr>) p)"
    by (simp add: onDurationChange_def getMedia_def Math_round_PInf_iff Let_def)
  show "snapshot_of (snd (onDurationChange p))
      = (snapshot_of p)\<lparr>duration := Math_round (el_duration media)\<rparr>"
    by (simp add: upd snapshot_of_updateMediaService updateMedia_duration_only)
next
  fix r assume fin: "el_duration media = Fin r"
  with assms have "snapshot_of (snd (onDurationChange p))
      = (snapshot_of p)\<lparr>duration := Math_round (Fin r)\<rparr>"
    by (simp add: onDurationChange_def getMedia_def js_seq_def Let_def
        snapshot_of_updateMediaService updateMedia_duration_only)
  then show "\<exists>n::int. duration (snapshot_of (snd (onDurationChange p))) = Fin (of_int n)
      \<and> \<bar>of_int n - r\<bar> \<le> 1 / 2"
    using Math_round_Fin_near [of r] by simp
qed

theorem duration_change_witness:
  "onDurationChange example_provider = (Returned, example_provider)
   \<and> duration (snapshot_of (snd (onDurationChange
        (example_provider\<lparr>mediaRef := Some (example_media\<lparr>el_duration := Fin 12.5\<rparr>)\<rparr>))))
     = Fin 13"
proof -
  have a: "mediaRef example_provider = Some example_media"
    by (simp add: example_provider_def)
  have inf: "el_duration example_media = PInf"
    by (simp add: example_media_def)
  have b: "mediaRef (example_provider\<lparr>mediaRef := Some (example_media\<lparr>el_duration := Fin 12.5\<rparr>)\<rparr>)
      = Some (example_media\<lparr>el_duration := Fin 12.5\<rparr>)"
    by simp
  have fin: "el_duration (example_media\<lparr>el_duration := Fin 12.5\<rparr>) \<noteq> PInf"
    by simp
  have 1: "onDurationChange example_provider = (Returned, example_provider)"
    using duration_change [OF a] inf by blast
  have "snapshot_of (snd (onDurationChange
        (example_provider\<lparr>mediaRef := Some (example_media\<lparr>el_duration := Fin 12.5\<rparr>)\<rparr>)))
     = (snapshot_of (example_provider\<lparr>mediaRef := Some (example_media\<lparr>el_duration := Fin 12.5\<rparr>)\<rparr>))
         \<lparr>duration := Math_round (el_duration (example_media\<lparr>el_duration := Fin 12.5\<rparr>))\<rparr>"
    using duration_change [OF b] fin by blast
  then have 2: "duration (snapshot_of (snd (onDurationChange
        (example_provider\<lparr>mediaRef := Some (example_media\<lparr>el_duration := Fin 12.5\<rparr>)\<rparr>))))
     = Fin 13"
    by simp
  from 1 2 show ?thesis by blast
qed

section \<open>The readiness check\<close>

lemma timeRanges_later_kept:
  "list_all (\<lambda>(start, end). \<not> js_seq (Math_floor start) (Fin 0)) rest \<Longrightarrow> timeRanges rest = rest"
  by (induction rest) (auto simp: timeRanges_def)

text \<open>
  Where no range after the first starts in the first second, the check is the one the
  specification describes.
\<close>

lemma hasDataAt_agrees_when_only_first_near_zero:
  assumes "list_all (\<lambda>(start, end). \<not> js_seq (Math_floor start) (Fin 0)) (tl buf)"
  shows "hasDataAt t buf = spec_hasDataAt t buf"
proof (cases buf)
  case Nil
  then show ?thesis by (simp add: hasDataAt_def spec_hasDataAt_def timeRanges_def)
next
  case (Cons r rest)
  obtain s e where r: "r = (s, e)" by (cases r)
  from assms Cons have "timeRanges rest = rest" by (simp add: timeRanges_later_kept)
  moreover have "timeRanges (r # rest) = timeRanges [r] @ timeRanges rest"
    by (simp add: timeRanges_def)
  ultimately show ?thesis
    using Cons r by (auto simp: hasDataAt_def spec_hasDataAt_def timeRanges_def js_seq_def)
qed

text \<open>
  The example of the specification: with the buffered ranges \<open>[[0.0056, 10], [15, 20]]\<close>
  and the current time 0 the check returns true, and the first start is normalised to 0.
\<close>

lemma readiness_example:
  "checkMediaHasDataToPlay example_provider = Inr True
   \<and> timeRanges (el_buffered example_media) = [(Fin 0, Fin 10), (Fin 15, Fin 20)]"
  by (simp add: checkMediaHasDataToPlay_def getMedia_def example_provider_def example_media_def
      hasDataAt_def timeRanges_def js_seq_def js_ge_def)

text \<open>
  Claim C2. The readiness check is to hold exactly when the current time lies in a
  buffered range, bounds included, after the start of the earliest range has been
  replaced by 0 where its floor is 0. The check replaces the start of every range whose
  floor is 0, not only of the earliest. On the element whose buffered ranges are
  \<open>[[0.1, 0.2], [0.5, 0.9]]\<close> and whose current time is 0.3 it returns true, the second
  range having become \<open>[0, 0.9]\<close>; with only the earliest start replaced, the ranges are
  \<open>[[0, 0.2], [0.5, 0.9]]\<close> and none holds 0.3.
\<close>

theorem readiness_floors_every_range_near_zero:
  "checkMediaHasDataToPlay gap_provider = Inr True
   \<and> timeRanges (el_buffered gap_media) = [(Fin 0, Fin 0.2), (Fin 0, Fin 0.9)]
   \<and> spec_timeRanges (el_buffered gap_media) = [(Fin 0, Fin 0.2), (Fin 0.5, Fin 0.9)]
   \<and> \<not> spec_hasDataAt (el_currentTime gap_media) (el_buffered gap_media)"
  by (simp add: checkMediaHasDataToPlay_def getMedia_def gap_provider_def gap_media_def
      hasDataAt_def spec_hasDataAt_def timeRanges_def js_seq_def js_ge_def)

section \<open>Selecting a bitrate without an adapter\<close>

text \<open>
  Claim C10. Called while no streaming adapter is bound, \<open>setCurrentBirateIndex\<close> throws
  the error of the unavailable adapter, and the state it leaves is the one after its
  update: \<open>currentBirateIndex\<close> is the index asked for and \<open>autoBitrateEnabled\<close> says
  whether that index is the auto index -1, every other field being as before. The
  update is made before the adapter is looked up.
\<close>

theorem setCurrentBirateIndex_without_adapter:
  assumes "hlsRef p = None"
  shows "setCurrentBirateIndex i p
           = (Threw HlsNotAvailable,
              updateMediaService
                (no_values\<lparr>autoBitrateEnabled_u := Some (js_seq i (Fin (- 1))),
                   currentBirateIndex_u := Some i\<rparr>) p)
       \<and> snapshot_of (snd (setCurrentBirateIndex i p))
           = (snapshot_of p)\<lparr>autoBitrateEnabled := js_seq i (Fin (- 1)), currentBirateIndex := i\<rparr>"
proof -
  have h: "hlsRef (updateMediaService u p) = None" for u
    using assms by (simp add: updateMediaService_def)
  have 1: "setCurrentBirateIndex i p
           = (Threw HlsNotAvailable,
              updateMediaService
                (no_values\<lparr>autoBitrateEnabled_u := Some (js_seq i (Fin (- 1))),
                   currentBirateIndex_u := Some i\<rparr>) p)"
    by (simp add: setCurrentBirateIndex_def getHls_def h DEFAULT_AUTO_BITRATE_INDEX_def Let_def)
  show ?thesis
    by (simp add: 1 snapshot_of_updateMediaService updateMedia_def no_values_def spread_field_def)
qed

theorem setCurrentBirateIndex_without_adapter_witness:
  "hlsRef example_provider = None
   \<and> fst (setCurrentBirateIndex (Fin 2) example_provider) = Threw HlsNotAvailable
   \<and> currentBirateIndex (snapshot_of (snd (setCurrentBirateIndex (Fin 2) example_provider))) = Fin 2
   \<and> autoBitrateEnabled (snapshot_of (snd (setCurrentBirateIndex (Fin 2) example_provider))) = False
   \<and> autoBitrateEnabled (snapshot_of example_provider) = True"
proof -
  have h: "hlsRef example_provider = None"
    by (simp add: example_provider_def initial_provider_def)
  have s: "autoBitrateEnabled (snapshot_of example_provider) = True"
    by (simp add: example_provider_def initial_provider_def snapshot_of_def getSnapshot_def
        initialState_def initial_context_def)
  have 1: "fst (setCurrentBirateIndex (Fin 2) example_provider) = Threw HlsNotAvailable"
    using setCurrentBirateIndex_without_adapter [OF h, of "Fin 2"] by simp
  have 2: "snapshot_of (snd (setCurrentBirateIndex (Fin 2) example_provider))
      = (snapshot_of example_provider)
          \<lparr>autoBitrateEnabled := js_seq (Fin 2) (Fin (- 1)), currentBirateIndex := Fin 2\<rparr>"
    using setCurrentBirateIndex_without_adapter [OF h, of "Fin 2"] by blast
  show ?thesis
    by (simp add: h s 1 2 js_seq_def)
qed

section \<open>Consumers and their selectors\<close>



lemma same_or_absent_spread: "same_or_absent cur new \<Longrightarrow> spread_field cur new = cur"
  by (cases new) (simp_all add: same_or_absent_def spread_field_def)

lemma updateMedia_identical:
  "identical_to_current u c \<Longrightarrow> updateMedia c u = c"
  by (simp add: identical_to_current_def updateMedia_def same_or_absent_spread)

text \<open>
  Claim C3, as stated, fails: the update \<open>{ paused: true }\<close> sent to the store of a session
  just started gives the field the value it has, the state the listeners are called
  with is marked changed, and the listener of a consumer with the identity selector
  calls \<open>setPartialState\<close> with the new snapshot object, so that this consumer is
  rendered again.
\<close>

theorem identical_update_counterexample:
  "identical_to_current (no_values\<lparr>paused_u := Some True\<rparr>) (context initialState)
   \<and> changed (send initialState (no_values\<lparr>paused_u := Some True\<rparr>))
   \<and> listener (Identity :: jsnum selector) (Whole (context initialState))
        (send initialState (no_values\<lparr>paused_u := Some True\<rparr>))
      = Some (Whole initial_context)
   \<and> rerenders (Identity :: jsnum selector) (Whole (context initialState))
        (send initialState (no_values\<lparr>paused_u := Some True\<rparr>))"
  by (simp add: identical_to_current_def same_or_absent_def no_values_def initialState_def
      initial_context_def send_def rerenders_def listener_def select_def updateMedia_def
      spread_field_def)

text \<open>
  Claim C3, amended. An update all of whose fields have the values the snapshot already
  has (for \<open>buffered\<close>: the object it already holds) leaves the snapshot equal to what
  it was; the listeners are called with a state
  marked changed (an assign action ran); a consumer with a selector of its own that
  holds the current slice is not rendered again; a consumer with the identity selector
  is given the new snapshot object.
\<close>

theorem identical_update:
  assumes "identical_to_current u (context s)"
  shows "context (send s u) = context s
       \<and> changed (send s u)
       \<and> \<not> rerenders (Selector f) (Slice (f (context s))) (send s u)
       \<and> listener Identity (Whole (context s)) (send s u) = Some (Whole (context s))"
proof -
  have c: "context (send s u) = context s"
    using assms by (simp add: send_def updateMedia_identical)
  have ch: "changed (send s u)"
    by (simp add: send_def)
  show ?thesis
    by (simp add: c ch rerenders_def listener_def select_def isEqual_def)
qed

theorem identical_update_witness:
  "identical_to_current (no_values\<lparr>paused_u := Some True\<rparr>) (context initialState)
   \<and> context (send initialState (no_values\<lparr>paused_u := Some True\<rparr>)) = initial_context
   \<and> \<not> rerenders (Selector paused) (Slice True)
        (send initialState (no_values\<lparr>paused_u := Some True\<rparr>))"
proof -
  have i: "identical_to_current (no_values\<lparr>paused_u := Some True\<rparr>) (context initialState)"
    by (simp add: identical_to_current_def same_or_absent_def no_values_def initialState_def
        initial_context_def)
  have c: "context initialState = initial_context"
    by (simp add: initialState_def)
  have p: "paused initial_context = True"
    by (simp add: initial_context_def)
  note t = identical_update [OF i, of paused]
  have 1: "context (send initialState (no_values\<lparr>paused_u := Some True\<rparr>)) = initial_context"
    using t unfolding c by blast
  have 2: "\<not> rerenders (Selector paused) (Slice True)
        (send initialState (no_values\<lparr>paused_u := Some True\<rparr>))"
    using t unfolding c p by blast
  from i 1 2 show ?thesis by blast
qed

section \<open>Volume and rotation\<close>

lemma clamp_unit_interval:
  "v \<noteq> NaN \<Longrightarrow> \<exists>x. clamp v (Fin 0) (Fin 1) = Fin x \<and> 0 \<le> x \<and> x \<le> 1"
  by (cases v) (simp_all add: clamp_def js_ge_def Let_def)

lemma trunc_rem_nonneg:
  assumes "0 \<le> a" and "0 < b"
  shows "0 \<le> trunc_rem a b \<and> trunc_rem a b < b"
proof -
  have "of_int \<lfloor>a / b\<rfloor> * b \<le> a" using assms(2) by (rule floor_divide_lower)
  moreover have "a < (of_int \<lfloor>a / b\<rfloor> + 1) * b" using assms(2) by (rule floor_divide_upper)
  ultimately show ?thesis using assms by (simp add: trunc_rem_def algebra_simps)
qed

lemma updateMedia_rotate_only:
  "updateMedia c (no_values\<lparr>rotate_u := Some r\<rparr>) = c\<lparr>rotate_deg := r\<rparr>"
  by (simp add: updateMedia_def no_values_def spread_field_def)

lemma rotate_after_setRotate:
  "rotate_deg (snapshot_of (snd (setRotate r p))) = js_rem r (Fin 360)"
  by (simp add: setRotate_def snapshot_of_updateMediaService updateMedia_rotate_only)

lemma volume_after_setVolume:
  assumes "mediaRef p = Some media" and "v \<noteq> NaN"
  shows "setVolume v p = (Returned, p\<lparr>mediaRef := Some (media\<lparr>el_volume := clamp v (Fin 0) (Fin 1)\<rparr>)\<rparr>)"
    and "volume (snapshot_of (snd (onVolumeChange (snd (setVolume v p))))) = clamp v (Fin 0) (Fin 1)"
proof -
  obtain x where x: "clamp v (Fin 0) (Fin 1) = Fin x"
    using clamp_unit_interval [OF assms(2)] by blast
  show 1: "setVolume v p = (Returned, p\<lparr>mediaRef := Some (media\<lparr>el_volume := clamp v (Fin 0) (Fin 1)\<rparr>)\<rparr>)"
    using assms(1) by (simp add: setVolume_def getMedia_def x Let_def)
  show "volume (snapshot_of (snd (onVolumeChange (snd (setVolume v p))))) = clamp v (Fin 0) (Fin 1)"
    by (simp add: 1 onVolumeChange_def getMedia_def snapshot_of_updateMediaService updateMedia_def
        no_values_def spread_field_def)
qed

text \<open>
  Where the setters do normalise. For every volume that is not NaN, \<open>setVolume\<close> gives
  the element the volume clamped into \<open>[0, 1]\<close>, which the volume-change event then
  stores in the snapshot: \<open>setVolume(1.5)\<close> results in 1 and \<open>setVolume(-1)\<close> in 0. For
  every finite angle that is not negative, \<open>setRotate\<close> stores an angle in \<open>[0, 360)\<close>:
  \<open>setRotate(370)\<close> results in 10.
\<close>

lemma setters_on_valid_inputs:
  assumes "mediaRef p = Some media"
  shows "(v \<noteq> NaN \<longrightarrow>
            volume (snapshot_of (snd (onVolumeChange (snd (setVolume v p)))))
              = clamp v (Fin 0) (Fin 1)
          \<and> (\<exists>x. clamp v (Fin 0) (Fin 1) = Fin x \<and> 0 \<le> x \<and> x \<le> 1))
       \<and> volume (snapshot_of (snd (onVolumeChange (snd (setVolume (Fin 1.5) p))))) = Fin 1
       \<and> volume (snapshot_of (snd (onVolumeChange (snd (setVolume (Fin (- 1)) p))))) = Fin 0
       \<and> (0 \<le> r \<longrightarrow>
            (\<exists>x. rotate_deg (snapshot_of (snd (setRotate (Fin r) p))) = Fin x
                \<and> 0 \<le> x \<and> x < 360))
       \<and> rotate_deg (snapshot_of (snd (setRotate (Fin 370) p))) = Fin 10"
proof (intro conjI impI)
  assume v: "v \<noteq> NaN"
  show "volume (snapshot_of (snd (onVolumeChange (snd (setVolume v p))))) = clamp v (Fin 0) (Fin 1)"
    using volume_after_setVolume(2) [OF assms v] .
  show "\<exists>x. clamp v (Fin 0) (Fin 1) = Fin x \<and> 0 \<le> x \<and> x \<le> 1"
    using clamp_unit_interval [OF v] .
next
  have "volume (snapshot_of (snd (onVolumeChange (snd (setVolume (Fin 1.5) p)))))
      = clamp (Fin 1.5) (Fin 0) (Fin 1)"
    by (rule volume_after_setVolume(2) [OF assms]) simp
  then show "volume (snapshot_of (snd (onVolumeChange (snd (setVolume (Fin 1.5) p))))) = Fin 1"
    by (simp add: clamp_def js_ge_def Let_def)
  have "volume (snapshot_of (snd (onVolumeChange (snd (setVolume (Fin (- 1)) p)))))
      = clamp (Fin (- 1)) (Fin 0) (Fin 1)"
    by (rule volume_after_setVolume(2) [OF assms]) simp
  then show "volume (snapshot_of (snd (onVolumeChange (snd (setVolume (Fin (- 1)) p))))) = Fin 0"
    by (simp add: clamp_def js_ge_def Let_def)
  show "rotate_deg (snapshot_of (snd (setRotate (Fin 370) p))) = Fin 10"
    by (simp add: rotate_after_setRotate trunc_rem_def)
next
  assume "0 \<le> r"
  then have "0 \<le> trunc_rem r 360 \<and> trunc_rem r 360 < 360"
    using trunc_rem_nonneg [of r 360] by simp
  then show "\<exists>x. rotate_deg (snapshot_of (snd (setRotate (Fin r) p))) = Fin x \<and> 0 \<le> x \<and> x < 360"
    by (simp add: rotate_after_setRotate)
qed

text \<open>
  Claim C8. The setters are to bring their argument into its domain for every number:
  \<open>setVolume\<close> into \<open>[0, 1]\<close>, \<open>setRotate\<close> into \<open>[0, 360)\<close>, negative angles included.
  \<open>setRotate\<close> stores \<open>rotate % 360\<close>, and the remainder \<open>%\<close> has the sign of its left
  operand: \<open>setRotate(-10)\<close> stores -10, which is below 0, where the angle of \<open>[0, 360)\<close>
  on the same direction is 350.
\<close>

theorem setRotate_stores_negative_angle:
  "rotate_deg (snapshot_of (snd (setRotate (Fin (- 10)) example_provider))) = Fin (- 10)
   \<and> \<not> js_ge (Fin (- 10)) (Fin 0)"
  by (simp add: rotate_after_setRotate trunc_rem_def js_ge_def)

section \<open>The loading timer\<close>

lemma timer_view_updateMediaService [simp]: "timer_view (updateMediaService u p) = timer_view p"
  by (simp add: timer_view_def updateMediaService_def)

lemma status_of_updateMediaService:
  "status_of (updateMediaService u p) = spread_field (status_of p) (status_u u)"
  by (simp add: status_of_def updateMediaService_def send_def updateMedia_def)

lemma mediaRef_updateMediaService [simp]: "mediaRef (updateMediaService u p) = mediaRef p"
  by (simp add: updateMediaService_def)

lemma hlsRef_updateMediaService [simp]: "hlsRef (updateMediaService u p) = hlsRef p"
  by (simp add: updateMediaService_def)

lemma timer_view_media_play [simp]: "timer_view (snd (media_play p)) = timer_view p"
  by (simp add: timer_view_def media_play_def)

lemma status_of_media_play [simp]: "status_of (snd (media_play p)) = status_of p"
  by (simp add: status_of_def media_play_def)

lemma timer_view_media_pause [simp]: "timer_view (media_pause p) = timer_view p"
  by (simp add: timer_view_def media_pause_def)

lemma status_of_media_pause [simp]: "status_of (media_pause p) = status_of p"
  by (simp add: status_of_def media_pause_def)

lemma timer_view_resume_one [simp]: "timer_view (resume_one pr p) = timer_view p"
  by (simp add: resume_one_def setPaused_resume_def timer_view_def media_pause_def Let_def
      split: promise_state.splits)

lemma status_of_resume_one [simp]: "status_of (resume_one pr p) = status_of p"
  by (simp add: resume_one_def setPaused_resume_def status_of_def media_pause_def Let_def
      split: promise_state.splits)

lemma timer_view_fold_resume_one [simp]: "timer_view (fold resume_one ws p) = timer_view p"
  by (induction ws arbitrary: p) simp_all

lemma status_of_fold_resume_one [simp]: "status_of (fold resume_one ws p) = status_of p"
  by (induction ws arbitrary: p) simp_all

lemma timer_view_microtasks [simp]: "timer_view (microtasks p) = timer_view p"
  by (simp add: microtasks_def) (simp add: timer_view_def)

lemma status_of_microtasks [simp]: "status_of (microtasks p) = status_of p"
  by (simp add: microtasks_def) (simp add: status_of_def)

lemma timer_view_settle [simp]: "timer_view (settle pr ok p) = timer_view p"
  by (simp add: settle_def timer_view_def)

lemma status_of_settle [simp]: "status_of (settle pr ok p) = status_of p"
  by (simp add: settle_def status_of_def)

lemma timer_view_releaseHlsResource [simp]: "timer_view (releaseHlsResource p) = timer_view p"
  by (simp add: releaseHlsResource_def timer_view_def split: option.splits)

lemma status_of_releaseHlsResource [simp]: "status_of (releaseHlsResource p) = status_of p"
  by (simp add: releaseHlsResource_def status_of_def split: option.splits)

lemma timer_view_setLoadingStatus_cong: "timer_view p = timer_view q \<Longrightarrow> timer_view (setLoadingStatus p) = timer_view (setLoadingStatus q)"
  by (auto simp: timer_view_def setLoadingStatus_def clearLoadingTimeout_def clearTimeout_def Let_def
      split: option.splits)

lemma timer_view_clearLoadingTimeout_cong:
  "timer_view p = timer_view q \<Longrightarrow> timer_view (clearLoadingTimeout p) = timer_view (clearLoadingTimeout q)"
  by (auto simp: timer_view_def clearLoadingTimeout_def clearTimeout_def split: option.splits)

lemma status_of_setLoadingStatus [simp]: "status_of (setLoadingStatus p) = status_of p"
  by (simp add: status_of_def setLoadingStatus_def clearLoadingTimeout_def clearTimeout_def Let_def
      split: option.splits)

lemma status_of_clearLoadingTimeout [simp]: "status_of (clearLoadingTimeout p) = status_of p"
  by (simp add: status_of_def clearLoadingTimeout_def clearTimeout_def split: option.splits)

lemma mediaRef_clearLoadingTimeout [simp]: "mediaRef (clearLoadingTimeout p) = mediaRef p"
  by (simp add: clearLoadingTimeout_def clearTimeout_def split: option.splits)

lemma timer_view_setCanPlayStatus [simp]: "timer_view (setCanPlayStatus p) = timer_view (clearLoadingTimeout p)"
  by (simp add: setCanPlayStatus_def)

lemma status_of_setCanPlayStatus [simp]: "status_of (setCanPlayStatus p) = CAN_PLAY"
  by (simp add: setCanPlayStatus_def status_of_updateMediaService no_values_def spread_field_def)

lemma mediaRef_setLoadingStatus [simp]: "mediaRef (setLoadingStatus p) = mediaRef p"
  by (simp add: setLoadingStatus_def Let_def)

lemma mediaRef_setCanPlayStatus [simp]: "mediaRef (setCanPlayStatus p) = mediaRef p"
  by (simp add: setCanPlayStatus_def)

lemma timer_view_other_fields [simp]:
  "timer_view (p\<lparr>pausedRef := b\<rparr>) = timer_view p"
  "timer_view (p\<lparr>mediaRef := m\<rparr>) = timer_view p"
  "timer_view (p\<lparr>hlsRef := h\<rparr>) = timer_view p"
  "timer_view (p\<lparr>playPromise := pp\<rparr>) = timer_view p"
  "timer_view (p\<lparr>awaiting := ws\<rparr>) = timer_view p"
  by (simp_all add: timer_view_def)

lemma status_of_other_fields [simp]:
  "status_of (p\<lparr>pausedRef := b\<rparr>) = status_of p"
  "status_of (p\<lparr>mediaRef := m\<rparr>) = status_of p"
  "status_of (p\<lparr>hlsRef := h\<rparr>) = status_of p"
  "status_of (p\<lparr>playPromise := pp\<rparr>) = status_of p"
  "status_of (p\<lparr>awaiting := ws\<rparr>) = status_of p"
  by (simp_all add: status_of_def)

lemma status_of_update_no_status [simp]:
  "status_u u = None \<Longrightarrow> status_of (updateMediaService u p) = status_of p"
  by (simp add: status_of_updateMediaService spread_field_def)

lemma status_of_update_status [simp]:
  "status_u u = Some st \<Longrightarrow> status_of (updateMediaService u p) = st"
  by (simp add: status_of_updateMediaService spread_field_def)

lemma status_u_no_values [simp]: "status_u no_values = None"
  by (simp add: no_values_def)

lemma keeps_refl [simp]: "keeps p p"
  by (simp add: keeps_def)

lemma keeps_onLoadedMetadata: "keeps p (snd (onLoadedMetadata p))"
  by (simp add: keeps_def onLoadedMetadata_def getMedia_def split: option.splits)

lemma keeps_onSeeked: "keeps p (snd (onSeeked p))"
  by (simp add: keeps_def onSeeked_def)

lemma keeps_onRateChange: "keeps p (snd (onRateChange p))"
  by (simp add: keeps_def onRateChange_def getMedia_def split: option.splits)

lemma keeps_onVolumeChange: "keeps p (snd (onVolumeChange p))"
  by (simp add: keeps_def onVolumeChange_def getMedia_def split: option.splits)

lemma keeps_onPause: "keeps p (snd (onPause p))"
  by (simp add: keeps_def onPause_def getMedia_def Let_def split: option.splits)

lemma keeps_onPlay: "keeps p (snd (onPlay p))"
  by (simp add: keeps_def onPlay_def getMedia_def Let_def split: option.splits)

lemma keeps_onTimeUpdate: "keeps p (snd (onTimeUpdate p))"
  by (simp add: keeps_def onTimeUpdate_def getMedia_def split: option.splits)

lemma keeps_onDurationChange: "keeps p (snd (onDurationChange p))"
  by (simp add: keeps_def onDurationChange_def getMedia_def Let_def split: option.splits)

lemma keeps_onError: "keeps p (snd (onError p))"
  by (simp add: keeps_def onError_def)

lemma clears_onCanPlay: "clears p (snd (onCanPlay p))"
  by (simp add: clears_def onCanPlay_def)

lemma media_buffered_fields [simp]:
  "timer_view (snd (media_buffered media p)) = timer_view p"
  "status_of (snd (media_buffered media p)) = status_of p"
  "mediaRef (snd (media_buffered media p)) = mediaRef p"
  by (simp_all add: media_buffered_def timer_view_def status_of_def)

lemma timer_view_setLoadingStatus_update [simp]:
  "timer_view (setLoadingStatus (updateMediaService u p)) = timer_view (setLoadingStatus p)"
  by (rule timer_view_setLoadingStatus_cong) simp

lemma check_updateMediaService [simp]:
  "checkMediaHasDataToPlay (updateMediaService u p) = checkMediaHasDataToPlay p"
  by (simp add: checkMediaHasDataToPlay_def getMedia_def)

lemma check_cases:
  "checkMediaHasDataToPlay p = Inr True \<or> checkMediaHasDataToPlay p = Inr False
   \<or> (mediaRef p = None \<and> checkMediaHasDataToPlay p = Inl MediaNotAvailable)"
  by (simp add: checkMediaHasDataToPlay_def getMedia_def split: option.splits)

lemma check_bound: "checkMediaHasDataToPlay p = Inr b \<Longrightarrow> \<exists>media. mediaRef p = Some media"
  by (simp add: checkMediaHasDataToPlay_def getMedia_def split: option.splits)

lemma clears_onProgress_ready:
  assumes "checkMediaHasDataToPlay p = Inr True"
  shows "clears p (snd (onProgress p))"
proof -
  obtain media where "mediaRef p = Some media"
    using assms check_bound by blast
  with assms show ?thesis
    by (simp add: clears_def onProgress_def getMedia_def case_prod_beta Let_def)
qed

lemma keeps_onProgress_other:
  assumes "checkMediaHasDataToPlay p \<noteq> Inr True"
  shows "keeps p (snd (onProgress p))"
proof -
  from check_cases [of p] assms
  consider "checkMediaHasDataToPlay p = Inr False"
    | "mediaRef p = None" "checkMediaHasDataToPlay p = Inl MediaNotAvailable"
    by auto
  then show ?thesis
  proof cases
    case 1
    then obtain media where "mediaRef p = Some media"
      using check_bound by blast
    with 1 show ?thesis
      by (simp add: keeps_def onProgress_def getMedia_def case_prod_beta Let_def)
  next
    case 2
    then show ?thesis by (simp add: onProgress_def)
  qed
qed

lemma clears_onWaiting_ready:
  "checkMediaHasDataToPlay p = Inr True \<Longrightarrow> clears p (snd (onWaiting p))"
  by (simp add: clears_def onWaiting_def)

lemma requests_onWaiting:
  "checkMediaHasDataToPlay p = Inr False \<Longrightarrow> requests p (snd (onWaiting p))"
  by (simp add: requests_def onWaiting_def)

lemma keeps_onWaiting_unbound:
  "checkMediaHasDataToPlay p \<noteq> Inr True \<Longrightarrow> checkMediaHasDataToPlay p \<noteq> Inr False
   \<Longrightarrow> keeps p (snd (onWaiting p))"
  using check_cases [of p] by (auto simp: onWaiting_def)

lemma requests_onSeeking:
  assumes "checkMediaHasDataToPlay p = Inr False"
  shows "requests p (snd (onSeeking p))"
proof -
  obtain media where "mediaRef p = Some media"
    using assms check_bound by blast
  with assms show ?thesis
    by (simp add: requests_def onSeeking_def getMedia_def Let_def)
qed

lemma keeps_onSeeking_other:
  assumes "checkMediaHasDataToPlay p \<noteq> Inr False"
  shows "keeps p (snd (onSeeking p))"
proof -
  from check_cases [of p] assms
  consider "checkMediaHasDataToPlay p = Inr True"
    | "mediaRef p = None" "checkMediaHasDataToPlay p = Inl MediaNotAvailable"
    by auto
  then show ?thesis
  proof cases
    case 1
    then obtain media where "mediaRef p = Some media"
      using check_bound by blast
    with 1 show ?thesis
      by (simp add: keeps_def onSeeking_def getMedia_def Let_def)
  next
    case 2
    then show ?thesis by (simp add: onSeeking_def getMedia_def)
  qed
qed

lemma keeps_setPaused: "keeps p (snd (setPaused b p))"
  by (simp add: keeps_def setPaused_def getMedia_def Let_def case_prod_beta split: option.splits)

lemma keeps_microtasks: "keeps p q \<Longrightarrow> keeps p (microtasks q)"
  by (simp add: keeps_def)

lemma keeps_setCurrentBirateIndex: "keeps p (snd (setCurrentBirateIndex i p))"
  by (simp add: keeps_def setCurrentBirateIndex_def getHls_def Let_def split: option.splits)

lemma control_effect: "keeps p (microtasks (snd (control_call c p)))"
proof (rule keeps_microtasks, cases c)
  case (SetPaused b)
  then show "keeps p (snd (control_call c p))" by (simp add: keeps_setPaused)
next
  case (SetCurrentBirateIndex i)
  then show "keeps p (snd (control_call c p))" by (simp add: keeps_setCurrentBirateIndex)
qed (simp_all add: keeps_def setCurrentTime_def setPlaybackRate_def setVolume_def
        setMuted_def setRotate_def applyInitialDuration_def
        getMedia_def Let_def split: option.splits)

lemma keeps_onHlsError:
  "keeps p ((snd (onHlsError data (hls, p)))\<lparr>hlsRef := Some (fst (onHlsError data (hls, p)))\<rparr>)"
  by (cases "error_type data") (simp_all add: keeps_def onHlsError_def)

lemma adapter_effect: "keeps p (adapter_event ev p)"
proof (cases ev)
  case (HlsError data)
  then show ?thesis
    using keeps_onHlsError [of p data]
    by (simp add: adapter_event_def case_prod_beta split: option.splits)
qed (simp_all add: keeps_def adapter_event_def onManifestParsed_def onLevelSwitched_def
       split: option.splits)

lemma attach_effect: "keeps p (snd (attachMediaSource b p))"
  by (simp add: keeps_def attachMediaSource_def getMedia_def Let_def split: option.splits)

text \<open>
  What every event does to the loading timer, by the state it arrives in.
\<close>

lemma cancels_clears: "cancels e p \<Longrightarrow> clears p (step e p)"
  by (auto simp: cancels_def clears_onCanPlay clears_onProgress_ready clears_onWaiting_ready)

lemma reschedules_requests: "reschedules e p \<Longrightarrow> requests p (step e p)"
  by (auto simp: reschedules_def requests_onSeeking requests_onWaiting)

lemma undisturbed_keeps:
  assumes "\<not> cancels e p" and "\<not> reschedules e p" and "\<And>dt. e \<noteq> Elapse dt"
  shows "keeps p (step e p)"
proof (cases e)
  case (Dom ev)
  with assms(1,2) show ?thesis
    by (cases ev)
       (simp_all add: cancels_def reschedules_def keeps_onLoadedMetadata keeps_onSeeked
          keeps_onRateChange keeps_onVolumeChange keeps_onPause keeps_onPlay keeps_onTimeUpdate
          keeps_onDurationChange keeps_onError keeps_onProgress_other keeps_onWaiting_unbound
          keeps_onSeeking_other)
next
  case (Elapse dt)
  with assms(3) show ?thesis by blast
qed (simp_all add: control_effect adapter_effect attach_effect, simp_all add: keeps_def)

lemma step_effect:
  "(\<exists>dt. e = Elapse dt) \<or> keeps p (step e p) \<or> clears p (step e p) \<or> requests p (step e p)"
  using cancels_clears [of e p] reschedules_requests [of e p] undisturbed_keeps [of e p]
  by blast

lemma timer_view_eq_iff:
  "timer_view q = timer_view p \<longleftrightarrow>
     timers q = timers p \<and> now q = now p \<and> next_timer_id q = next_timer_id p
     \<and> timeoutLoadingId q = timeoutLoadingId p"
  by (auto simp: timer_view_def)

lemma clearLoadingTimeout_fields [simp]:
  "now (clearLoadingTimeout p) = now p"
  "next_timer_id (clearLoadingTimeout p) = next_timer_id p"
  "timeoutLoadingId (clearLoadingTimeout p) = timeoutLoadingId p"
  by (simp_all add: clearLoadingTimeout_def clearTimeout_def split: option.splits)

lemma timers_clearLoadingTimeout_subset:
  "set (timers (clearLoadingTimeout p)) \<subseteq> set (timers p)"
  by (auto simp: clearLoadingTimeout_def clearTimeout_def split: option.splits)

lemma setLoadingStatus_fields [simp]:
  "timers (setLoadingStatus p) = timers (clearLoadingTimeout p) @ [(next_timer_id p, now p + 1000)]"
  "now (setLoadingStatus p) = now p"
  "next_timer_id (setLoadingStatus p) = Suc (next_timer_id p)"
  "timeoutLoadingId (setLoadingStatus p) = Some (next_timer_id p)"
  by (simp_all add: setLoadingStatus_def Let_def)

lemma timer_inv_clear: "timer_inv p \<Longrightarrow> timers (clearLoadingTimeout p) = []"
  by (auto simp: timer_inv_def clearLoadingTimeout_def clearTimeout_def
      split: option.splits list.splits)

lemma keeps_fields:
  assumes "keeps p q"
  shows "timers q = timers p" "now q = now p" "next_timer_id q = next_timer_id p"
    "timeoutLoadingId q = timeoutLoadingId p" "status_of q = LOADING \<Longrightarrow> status_of p = LOADING"
  using assms by (simp_all add: keeps_def timer_view_eq_iff)

lemma clears_fields:
  assumes "clears p q"
  shows "timers q = timers (clearLoadingTimeout p)" "now q = now p"
    "next_timer_id q = next_timer_id p" "timeoutLoadingId q = timeoutLoadingId p"
    "status_of q = CAN_PLAY"
  using assms by (simp_all add: clears_def timer_view_eq_iff)

lemma requests_fields:
  assumes "requests p q"
  shows "timers q = timers (clearLoadingTimeout p) @ [(next_timer_id p, now p + 1000)]"
    "now q = now p" "next_timer_id q = Suc (next_timer_id p)"
    "timeoutLoadingId q = Some (next_timer_id p)" "status_of q = status_of p"
  using assms by (simp_all add: requests_def timer_view_eq_iff)

lemma status_of_fold_callback:
  "status_of (fold (\<lambda>_. loadingTimeoutCallback) ds p) = (if ds = [] then status_of p else LOADING)"
  by (induction ds arbitrary: p) (simp_all add: loadingTimeoutCallback_def no_values_def)

lemma timer_view_fold_callback [simp]: "timer_view (fold (\<lambda>_. loadingTimeoutCallback) ds p) = timer_view p"
  by (induction ds arbitrary: p) (simp_all add: loadingTimeoutCallback_def)

lemma elapse_fields [simp]:
  "timers (elapse dt p) = filter (\<lambda>(i, due). \<not> due \<le> now p + dt) (timers p)"
  "now (elapse dt p) = now p + dt"
  "next_timer_id (elapse dt p) = next_timer_id p"
  "timeoutLoadingId (elapse dt p) = timeoutLoadingId p"
proof -
  have "timer_view (elapse dt p)
      = timer_view (p\<lparr>now := now p + dt,
               timers := filter (\<lambda>(i, due). \<not> due \<le> now p + dt) (timers p)\<rparr>)"
    by (simp add: elapse_def run_timers_def)
  then show "timers (elapse dt p) = filter (\<lambda>(i, due). \<not> due \<le> now p + dt) (timers p)"
    "now (elapse dt p) = now p + dt"
    "next_timer_id (elapse dt p) = next_timer_id p"
    "timeoutLoadingId (elapse dt p) = timeoutLoadingId p"
    by (simp_all add: timer_view_eq_iff)
qed

lemma mediaRef_fold_callback [simp]:
  "mediaRef (fold (\<lambda>_. loadingTimeoutCallback) ds p) = mediaRef p"
  by (induction ds arbitrary: p) (simp_all add: loadingTimeoutCallback_def)

lemma mediaRef_elapse [simp]: "mediaRef (elapse dt p) = mediaRef p"
  by (simp add: elapse_def run_timers_def)

lemma status_of_elapse:
  "status_of (elapse dt p)
     = (if filter (\<lambda>(i, due). due \<le> now p + dt) (timers p) = [] then status_of p else LOADING)"
  by (simp add: elapse_def run_timers_def status_of_fold_callback) (simp add: status_of_def)

lemma list_all_clear:
  "list_all P (timers p) \<Longrightarrow> list_all P (timers (clearLoadingTimeout p))"
  using timers_clearLoadingTimeout_subset [of p] by (auto simp: list_all_iff)

lemma quiet_step_other:
  assumes "quiet T p" and "\<And>dt. e \<noteq> Elapse dt"
  shows "quiet T (step e p)"
proof -
  from step_effect [of e p] assms(2)
  consider "keeps p (step e p)" | "clears p (step e p)" | "requests p (step e p)"
    by blast
  then show ?thesis
  proof cases
    case 1
    with assms(1) show ?thesis by (auto simp: quiet_def keeps_fields)
  next
    case 2
    with assms(1) show ?thesis by (simp add: quiet_def clears_fields list_all_clear)
  next
    case 3
    with assms(1) show ?thesis by (simp add: quiet_def requests_fields list_all_clear)
  qed
qed

lemma quiet_step_elapse:
  assumes "quiet T p" and "now p + dt < T"
  shows "quiet T (step (Elapse dt) p)"
proof -
  from assms have none: "filter (\<lambda>(i, due). due \<le> now p + dt) (timers p) = []"
    by (auto simp: quiet_def list_all_iff filter_empty_conv)
  from assms show ?thesis
    by (auto simp: quiet_def status_of_elapse none list_all_iff)
qed

lemma now_step_other: "(\<And>dt. e \<noteq> Elapse dt) \<Longrightarrow> now (step e p) = now p"
  using step_effect [of e p] by (auto simp: keeps_fields clears_fields requests_fields)

lemma run_Nil [simp]: "run [] p = p"
  by (simp add: run_def)

lemma run_Cons [simp]: "run (e # evs) p = run evs (step e p)"
  by (simp add: run_def)

lemma run_append [simp]: "run (evs @ evs') p = run evs' (run evs p)"
  by (simp add: run_def)

lemma elapsed_other:
  assumes "\<And>dt. e \<noteq> Elapse dt"
  shows "elapsed (e # evs) = elapsed evs"
  using assms by (cases e) auto

lemma quiet_run:
  "quiet T p \<Longrightarrow> now p + elapsed evs < T \<Longrightarrow> quiet T (run evs p)"
proof (induction evs arbitrary: p)
  case Nil
  then show ?case by simp
next
  case (Cons e evs)
  have "quiet T (step e p) \<and> now (step e p) + elapsed evs < T"
  proof (cases "\<exists>dt. e = Elapse dt")
    case True
    then obtain dt where e: "e = Elapse dt" by blast
    from Cons.prems e have lt: "now p + dt < T" by simp
    have "quiet T (step (Elapse dt) p)"
      using Cons.prems(1) lt by (rule quiet_step_elapse)
    moreover have "now (step (Elapse dt) p) + elapsed evs < T"
      using Cons.prems e by simp
    ultimately show ?thesis by (simp add: e)
  next
    case False
    then have ne: "\<And>dt. e \<noteq> Elapse dt" by blast
    have "quiet T (step e p)"
      using Cons.prems(1) ne by (rule quiet_step_other)
    moreover have "now (step e p) + elapsed evs < T"
      using Cons.prems(2) by (simp add: now_step_other [OF ne] elapsed_other [OF ne])
    ultimately show ?thesis by blast
  qed
  then have "quiet T (run evs (step e p))"
    using Cons.IH by blast
  then show ?case by simp
qed

lemma idle_step:
  assumes "idle p" and "\<not> reschedules e p"
  shows "idle (step e p)"
proof (cases "\<exists>dt. e = Elapse dt")
  case True
  then obtain dt where "e = Elapse dt" by blast
  with assms(1) show ?thesis by (simp add: idle_def status_of_elapse)
next
  case False
  then have ne: "\<And>dt. e \<noteq> Elapse dt" by blast
  show ?thesis
  proof (cases "cancels e p")
    case True
    then have "clears p (step e p)" by (rule cancels_clears)
    moreover from assms(1) have "timers (clearLoadingTimeout p) = []"
      using timers_clearLoadingTimeout_subset [of p] by (simp add: idle_def)
    ultimately show ?thesis by (simp add: idle_def clears_fields)
  next
    case False
    then have "keeps p (step e p)"
      using assms(2) ne by (rule undisturbed_keeps)
    with assms(1) show ?thesis by (auto simp: idle_def keeps_fields)
  qed
qed

lemma idle_run: "idle p \<Longrightarrow> unrequested evs p \<Longrightarrow> idle (run evs p)"
  by (induction evs arbitrary: p) (simp_all add: idle_step)

lemma timer_inv_step: "timer_inv p \<Longrightarrow> timer_inv (step e p)"
proof (cases "\<exists>dt. e = Elapse dt")
  case True
  assume inv: "timer_inv p"
  from True obtain dt where e: "e = Elapse dt" by blast
  from inv show ?thesis
    by (auto simp: e timer_inv_def split: list.splits if_splits)
next
  case False
  assume inv: "timer_inv p"
  from False step_effect [of e p]
  consider "keeps p (step e p)" | "clears p (step e p)" | "requests p (step e p)"
    by blast
  then show ?thesis
  proof cases
    case 1
    then have "timer_view (step e p) = timer_view p" by (simp add: keeps_def)
    then have "timer_inv (step e p) = timer_inv p"
      by (auto simp: timer_view_eq_iff timer_inv_def split: list.splits)
    with inv show ?thesis by simp
  next
    case 2
    with inv show ?thesis by (simp add: timer_inv_def clears_fields timer_inv_clear)
  next
    case 3
    with inv show ?thesis by (simp add: timer_inv_def requests_fields timer_inv_clear)
  qed
qed

lemma timer_inv_run: "timer_inv p \<Longrightarrow> timer_inv (run evs p)"
  by (induction evs arbitrary: p) (simp_all add: timer_inv_step)

lemma timer_inv_initial: "timer_inv (initial_provider dur async_play)"
  by (simp add: timer_inv_def initial_provider_def)

lemma fires_eventually:
  "timers q = [(i, T)] \<Longrightarrow> now q < T \<Longrightarrow> undisturbed evs q \<Longrightarrow> T \<le> now q + elapsed evs
   \<Longrightarrow> \<exists>n\<le>length evs. status_of (run (take n evs) q) = LOADING"
proof (induction evs arbitrary: q)
  case Nil
  then show ?case by simp
next
  case (Cons e evs)
  show ?case
  proof (cases "\<exists>dt. e = Elapse dt")
    case True
    then obtain dt where e: "e = Elapse dt" by blast
    show ?thesis
    proof (cases "T \<le> now q + dt")
      case True
      then have "status_of (run (take 1 (e # evs)) q) = LOADING"
        using Cons.prems(1) by (simp add: e status_of_elapse)
      then show ?thesis by (intro exI [of _ 1]) simp
    next
      case False
      then have "timers (step e q) = [(i, T)]" and "now (step e q) < T"
        using Cons.prems(1) by (simp_all add: e)
      moreover have "undisturbed evs (step e q)"
        using Cons.prems(3) by simp
      moreover have "T \<le> now (step e q) + elapsed evs"
        using Cons.prems(4) by (simp add: e)
      ultimately obtain n where "n \<le> length evs" "status_of (run (take n evs) (step e q)) = LOADING"
        using Cons.IH by blast
      then show ?thesis by (intro exI [of _ "Suc n"]) simp
    qed
  next
    case False
    then have ne: "\<And>dt. e \<noteq> Elapse dt" by blast
    from Cons.prems(3) have nc: "\<not> cancels e q" and nr: "\<not> reschedules e q" by simp_all
    have k: "keeps q (step e q)"
      using nc nr ne by (rule undisturbed_keeps)
    then have "timers (step e q) = [(i, T)]" and "now (step e q) < T"
      using Cons.prems(1,2) by (simp_all add: keeps_fields)
    moreover have "undisturbed evs (step e q)"
      using Cons.prems(3) by simp
    moreover have "T \<le> now (step e q) + elapsed evs"
      using Cons.prems(4) k by (simp add: keeps_fields elapsed_other [OF ne])
    ultimately obtain n where "n \<le> length evs" "status_of (run (take n evs) (step e q)) = LOADING"
      using Cons.IH by blast
    then show ?thesis by (intro exI [of _ "Suc n"]) simp
  qed
qed

text \<open>
  The debounce, where the readiness check finds the position unplayable. Take any
  session, at any moment of it, and an event that reschedules the loading timer there:
  a seeking or a waiting event with the element bound and the readiness check failing.
  The event itself leaves the status as it is and sets the one pending timeout, due
  1000 ms later. Whatever events follow, as long as less than 1000 ms have passed, the
  status does not become \<open>LOADING\<close> (unless it was before the event). When time passes
  and nothing else happens, the status is unchanged before 1000 ms and is \<open>LOADING\<close>
  from 1000 ms on; and whatever events follow, none of them cancelling or rescheduling
  the timer where it arrives (so also after progress events at unplayable positions and
  seeking events at playable ones), the status has become \<open>LOADING\<close> at some moment once
  1000 ms have passed. When, after any events, an event arrives that cancels the timer
  (canplay, or a progress or waiting event at a playable position), the status is
  \<open>CAN_PLAY\<close> at once and no timeout is pending; from there on, whatever events
  follow, the status does not become \<open>LOADING\<close> unless one of them reschedules the timer.
\<close>

lemma loading_is_debounced:
  assumes reach: "p = run evs0 (initial_provider dur async_play)"
    and req: "reschedules e p"
  shows "status_of (step e p) = status_of p
       \<and> timers (step e p) = [(next_timer_id p, now p + 1000)]
       \<and> (\<forall>evs. status_of p \<noteq> LOADING \<and> elapsed evs < 1000 \<longrightarrow>
             status_of (run evs (step e p)) \<noteq> LOADING)
       \<and> (\<forall>dt. dt < 1000 \<longrightarrow> status_of (step (Elapse dt) (step e p)) = status_of p)
       \<and> (\<forall>dt. 1000 \<le> dt \<longrightarrow> status_of (step (Elapse dt) (step e p)) = LOADING)
       \<and> (\<forall>evs. undisturbed evs (step e p) \<and> 1000 \<le> elapsed evs \<longrightarrow>
             (\<exists>n\<le>length evs. status_of (run (take n evs) (step e p)) = LOADING))
       \<and> (\<forall>evs1 e' evs2.
             cancels e' (run evs1 (step e p))
             \<and> unrequested evs2 (step e' (run evs1 (step e p))) \<longrightarrow>
               status_of (step e' (run evs1 (step e p))) = CAN_PLAY
             \<and> timers (step e' (run evs1 (step e p))) = []
             \<and> status_of (run evs2 (step e' (run evs1 (step e p)))) \<noteq> LOADING)"
proof -
  define p1 where "p1 = step e p"
  have inv: "timer_inv p"
    unfolding reach by (rule timer_inv_run) (rule timer_inv_initial)
  have rq: "requests p p1"
    unfolding p1_def using req by (rule reschedules_requests)
  have st: "status_of p1 = status_of p"
    using rq by (simp add: requests_fields)
  have tm: "timers p1 = [(next_timer_id p, now p + 1000)]"
    using rq inv by (simp add: requests_fields timer_inv_clear)
  have nw: "now p1 = now p"
    using rq by (simp add: requests_fields)
  have window: "status_of (run evs p1) \<noteq> LOADING"
    if "status_of p \<noteq> LOADING" and "elapsed evs < 1000" for evs
  proof -
    have "quiet (now p + 1000) p1"
      using that(1) by (simp add: quiet_def st tm nw)
    moreover have "now p1 + elapsed evs < now p + 1000"
      using that(2) by (simp add: nw)
    ultimately have "quiet (now p + 1000) (run evs p1)" by (rule quiet_run)
    then show ?thesis by (simp add: quiet_def)
  qed
  have before: "status_of (step (Elapse dt) p1) = status_of p" if "dt < 1000" for dt
    using that by (simp add: status_of_elapse tm nw st)
  have after: "status_of (step (Elapse dt) p1) = LOADING" if "1000 \<le> dt" for dt
    using that by (simp add: status_of_elapse tm nw)
  have fires: "\<exists>n\<le>length evs. status_of (run (take n evs) p1) = LOADING"
    if "undisturbed evs p1" and "1000 \<le> elapsed evs" for evs
  proof (rule fires_eventually [OF tm])
    show "now p1 < now p + 1000" by (simp add: nw)
    show "undisturbed evs p1" by (rule that(1))
    show "now p + 1000 \<le> now p1 + elapsed evs" using that(2) by (simp add: nw)
  qed
  have ready: "status_of (step e' (run evs1 p1)) = CAN_PLAY
      \<and> timers (step e' (run evs1 p1)) = []
      \<and> status_of (run evs2 (step e' (run evs1 p1))) \<noteq> LOADING"
    if "cancels e' (run evs1 p1)" and "unrequested evs2 (step e' (run evs1 p1))"
    for evs1 e' evs2
  proof -
    define q where "q = run evs1 p1"
    define q' where "q' = step e' q"
    have invq: "timer_inv q"
      unfolding q_def p1_def by (rule timer_inv_run) (rule timer_inv_step [OF inv])
    have cl: "clears q q'"
      unfolding q'_def using that(1) unfolding q_def [symmetric] by (rule cancels_clears)
    have s: "status_of q' = CAN_PLAY"
      using cl by (simp add: clears_fields)
    have t: "timers q' = []"
      using cl invq by (simp add: clears_fields timer_inv_clear)
    have "idle q'"
      by (simp add: idle_def s t)
    moreover have "unrequested evs2 q'"
      using that(2) unfolding q'_def q_def .
    ultimately have "idle (run evs2 q')"
      by (rule idle_run)
    with s t show ?thesis
      unfolding q'_def q_def by (simp add: idle_def)
  qed
  from st tm window before after fires ready show ?thesis
    unfolding p1_def by blast
qed

text \<open>
  An instance: in the example session the element is moved to 12, outside its buffered
  ranges, and a seeking event arrives. A progress event that arrives while the position
  is still unplayable leaves the pending timeout in place.
\<close>

lemma loading_is_debounced_example:
  "status_of seek_provider = CAN_PLAY
   \<and> status_of (step (Dom Seeking) seek_provider) = CAN_PLAY
   \<and> status_of (run [Elapse 400, Dom Progress, Elapse 599] (step (Dom Seeking) seek_provider))
       \<noteq> LOADING
   \<and> status_of (step (Elapse 1000) (step (Dom Seeking) seek_provider)) = LOADING
   \<and> (\<exists>n\<le>length [Elapse 400, Dom Progress, Elapse 600].
         status_of (run (take n [Elapse 400, Dom Progress, Elapse 600])
           (step (Dom Seeking) seek_provider)) = LOADING)
   \<and> status_of (step (Dom Progress)
        (run [Elapse 400, ElementChanges example_media] (step (Dom Seeking) seek_provider)))
       = CAN_PLAY
   \<and> status_of (run [Elapse 5000] (step (Dom Progress)
        (run [Elapse 400, ElementChanges example_media] (step (Dom Seeking) seek_provider))))
       \<noteq> LOADING"
proof -
  define p1 where "p1 = step (Dom Seeking) seek_provider"
  have reach: "seek_provider
      = run [ElementChanges example_media, Dom CanPlay, ElementChanges outside_media]
          (initial_provider (Fin 0) True)"
    by (rule seek_provider_def)
  have media: "mediaRef seek_provider = Some outside_media"
    by (simp add: seek_provider_def)
  have outside: "\<not> hasDataAt (el_currentTime outside_media) (el_buffered outside_media)"
    by (simp add: outside_media_def example_media_def hasDataAt_def timeRanges_def js_seq_def
        js_ge_def)
  have inside: "hasDataAt (el_currentTime example_media) (el_buffered example_media)"
    by (simp add: example_media_def hasDataAt_def timeRanges_def js_seq_def js_ge_def)
  have chk: "checkMediaHasDataToPlay q = Inr False" if "mediaRef q = Some outside_media" for q
    using that outside by (simp add: checkMediaHasDataToPlay_def getMedia_def)
  have chk': "checkMediaHasDataToPlay q = Inr True" if "mediaRef q = Some example_media" for q
    using that inside by (simp add: checkMediaHasDataToPlay_def getMedia_def)
  have req: "reschedules (Dom Seeking) seek_provider"
    by (simp add: reschedules_def chk [OF media])
  note t = loading_is_debounced [OF reach req, folded p1_def]
  have m1: "mediaRef p1 = Some outside_media"
    unfolding p1_def using media chk [OF media]
    by (simp add: onSeeking_def getMedia_def Let_def)
  have s0: "status_of seek_provider = CAN_PLAY"
    by (simp add: seek_provider_def onCanPlay_def)
  have ne: "status_of seek_provider \<noteq> LOADING"
    by (simp add: s0)
  have 1: "status_of p1 = CAN_PLAY"
    using t s0 by simp
  have e: "elapsed [Elapse 400, Dom Progress, Elapse 599] < 1000"
    by simp
  have 2: "status_of (run [Elapse 400, Dom Progress, Elapse 599] p1) \<noteq> LOADING"
    using t ne e by blast
  have 3: "status_of (step (Elapse 1000) p1) = LOADING"
    using t by simp
  have c1: "checkMediaHasDataToPlay (elapse 400 p1) = Inr False"
    by (rule chk) (simp add: m1)
  have und: "undisturbed [Elapse 400, Dom Progress, Elapse 600] p1"
    by (simp add: cancels_def reschedules_def c1)
  have long: "1000 \<le> elapsed [Elapse 400, Dom Progress, Elapse 600]"
    by simp
  have 5: "\<exists>n\<le>length [Elapse 400, Dom Progress, Elapse 600].
      status_of (run (take n [Elapse 400, Dom Progress, Elapse 600]) p1) = LOADING"
    using t und long by blast
  define q where "q = run [Elapse 400, ElementChanges example_media] p1"
  have m': "mediaRef q = Some example_media"
    by (simp add: q_def)
  have can: "cancels (Dom Progress) q"
    by (simp add: cancels_def chk' [OF m'])
  have later: "unrequested [Elapse 5000] (step (Dom Progress) q)"
    by (simp add: reschedules_def)
  have 4: "status_of (step (Dom Progress) q) = CAN_PLAY
     \<and> status_of (run [Elapse 5000] (step (Dom Progress) q)) \<noteq> LOADING"
    using t can later unfolding q_def by blast
  from s0 1 2 3 4 5 show ?thesis
    unfolding q_def p1_def by blast
qed

text \<open>
  Claim C5. A seeking or waiting event at a position outside all buffered ranges is to
  lead to \<open>LOADING\<close> once the debounce window has passed with no readiness event. In the
  session in which the element, able to play, is moved to 0.3 with the buffered ranges
  \<open>[[0.1, 0.2], [0.5, 0.9]]\<close>, the position is in no range, also after the start of
  the earliest one has been replaced by 0; but the readiness check, which replaces the
  start of every range whose floor is 0, finds it playable. The seeking event sets no
  timeout, and 5000 ms later the status is still \<open>CAN_PLAY\<close>; a waiting event there
  sets the status \<open>CAN_PLAY\<close> and no timeout either.
\<close>

theorem seek_into_gap_sets_no_timeout:
  "status_of gap_seek_provider = CAN_PLAY
   \<and> mediaRef gap_seek_provider = Some gap_media
   \<and> \<not> spec_hasDataAt (el_currentTime gap_media) (el_buffered gap_media)
   \<and> timers (step (Dom Seeking) gap_seek_provider) = []
   \<and> status_of (run [Dom Seeking, Elapse 5000] gap_seek_provider) = CAN_PLAY
   \<and> timers (step (Dom Waiting) gap_seek_provider) = []
   \<and> status_of (run [Dom Waiting, Elapse 5000] gap_seek_provider) = CAN_PLAY"
proof -
  have m: "mediaRef gap_seek_provider = Some gap_media"
    by (simp add: gap_seek_provider_def)
  have s0: "status_of gap_seek_provider = CAN_PLAY"
    by (simp add: gap_seek_provider_def onCanPlay_def)
  have t0: "timers gap_seek_provider = []"
    by (simp add: gap_seek_provider_def onCanPlay_def setCanPlayStatus_def
        clearLoadingTimeout_def initial_provider_def updateMediaService_def)
  have spec: "\<not> spec_hasDataAt (el_currentTime gap_media) (el_buffered gap_media)"
    by (simp add: gap_media_def spec_hasDataAt_def js_seq_def js_ge_def)
  have chk: "checkMediaHasDataToPlay gap_seek_provider = Inr True"
    using m
    by (simp add: checkMediaHasDataToPlay_def getMedia_def gap_media_def hasDataAt_def
        timeRanges_def js_seq_def js_ge_def)
  define a where "a = step (Dom Seeking) gap_seek_provider"
  define b where "b = step (Dom Waiting) gap_seek_provider"
  have "keeps gap_seek_provider a"
    unfolding a_def by (simp add: keeps_onSeeking_other chk)
  then have ta: "timers a = []" and "status_of a = LOADING \<longrightarrow> status_of gap_seek_provider = LOADING"
    using t0 by (simp_all add: keeps_fields)
  moreover have "status_of a = status_of gap_seek_provider"
    unfolding a_def using m chk by (simp add: onSeeking_def getMedia_def Let_def)
  ultimately have sa: "status_of a = CAN_PLAY"
    using s0 by simp
  have "clears gap_seek_provider b"
    unfolding b_def by (simp add: clears_onWaiting_ready chk)
  then have tb: "timers b = []" and sb: "status_of b = CAN_PLAY"
    using t0 timers_clearLoadingTimeout_subset [of gap_seek_provider]
    by (simp_all add: clears_fields)
  have ea: "status_of (elapse 5000 a) = CAN_PLAY"
    by (simp add: status_of_elapse ta sa)
  have eb: "status_of (elapse 5000 b) = CAN_PLAY"
    by (simp add: status_of_elapse tb sb)
  from s0 m spec ta ea tb eb show ?thesis
    unfolding a_def b_def by simp
qed

section \<open>Consumers selecting the buffered ranges\<close>

text \<open>
  The \<open>TimeRanges\<close> object in \<open>buffered\<close>: every progress event stores a new object, so a
  consumer selecting \<open>buffered\<close> is rendered again by every progress event, also when
  the ranges are the same as before.
\<close>

lemma progress_stores_new_object:
  assumes "mediaRef p = Some media"
  shows "buffered (snapshot_of (snd (onProgress p)))
           = Some (TimeRangesObject (length (time_ranges_objects p)))
       \<and> time_ranges_objects (snd (onProgress p)) = time_ranges_objects p @ [el_buffered media]"
proof -
  have t: "time_ranges_objects (setCanPlayStatus p) = time_ranges_objects p"
    by (simp add: setCanPlayStatus_def updateMediaService_def clearLoadingTimeout_def
        clearTimeout_def split: option.splits)
  have m: "mediaRef (setCanPlayStatus p) = Some media"
    using assms
    by (simp add: setCanPlayStatus_def updateMediaService_def clearLoadingTimeout_def
        clearTimeout_def split: option.splits)
  show ?thesis
    using assms
    by (simp add: onProgress_def checkMediaHasDataToPlay_def getMedia_def media_buffered_def
        updateMediaService_def snapshot_of_def getSnapshot_def send_def updateMedia_def
        no_values_def spread_field_def t m Let_def)
qed

lemma progress_rerenders_buffered_consumer:
  assumes "mediaRef p = Some media"
    and "buffered (snapshot_of p) = Some (TimeRangesObject n)"
    and "n < length (time_ranges_objects p)"
  shows "rerenders (Selector buffered) (Slice (buffered (snapshot_of p)))
           (mediaServiceRef (snd (onProgress p)))"
proof -
  have c: "changed (mediaServiceRef (snd (onProgress p)))"
    using assms(1)
    by (simp add: onProgress_def checkMediaHasDataToPlay_def getMedia_def media_buffered_def
        updateMediaService_def send_def setCanPlayStatus_def clearLoadingTimeout_def
        clearTimeout_def Let_def split: option.splits)
  have "buffered (context (mediaServiceRef (snd (onProgress p))))
      = Some (TimeRangesObject (length (time_ranges_objects p)))"
    using progress_stores_new_object [OF assms(1)] by (simp add: snapshot_of_def getSnapshot_def)
  with assms(2,3) c show ?thesis
    by (simp add: rerenders_def listener_def select_def isEqual_def)
qed

text \<open>
  So in the example session: after a first progress event a second one, with the same
  buffered ranges, renders a consumer selecting \<open>buffered\<close> again.
\<close>

lemma progress_rerenders_buffered_consumer_example:
  "time_ranges_objects (run [Dom Progress, Dom Progress] example_provider)
     = [el_buffered example_media, el_buffered example_media]
   \<and> rerenders (Selector buffered)
        (Slice (buffered (snapshot_of (step (Dom Progress) example_provider))))
        (mediaServiceRef (run [Dom Progress, Dom Progress] example_provider))"
proof -
  define q where "q = step (Dom Progress) example_provider"
  have m0: "mediaRef example_provider = Some example_media"
    by (simp add: example_provider_def)
  have o0: "time_ranges_objects example_provider = []"
    by (simp add: example_provider_def initial_provider_def)
  have q1: "buffered (snapshot_of q) = Some (TimeRangesObject 0)"
    and q2: "time_ranges_objects q = [el_buffered example_media]"
    unfolding q_def using progress_stores_new_object [OF m0] by (simp_all add: o0)
  have mq: "mediaRef q = Some example_media"
    unfolding q_def using m0
    by (simp add: onProgress_def checkMediaHasDataToPlay_def getMedia_def case_prod_beta Let_def)
  have "rerenders (Selector buffered) (Slice (buffered (snapshot_of q)))
      (mediaServiceRef (snd (onProgress q)))"
    using mq q1 by (rule progress_rerenders_buffered_consumer) (simp add: q2)
  moreover have "time_ranges_objects (snd (onProgress q))
      = [el_buffered example_media, el_buffered example_media]"
    using progress_stores_new_object [OF mq] by (simp add: q2)
  ultimately show ?thesis
    by (simp add: q_def run_def)
qed

section \<open>Errors of the streaming adapter\<close>






section \<open>Play and pause\<close>

text \<open>
  What \<open>setPaused\<close> does by the promise in \<open>_playPromise\<close>: with a promise stored, a
  pause request calls nothing and waits for it; with none stored it calls \<open>pause()\<close>
  at once; a resumed pause request calls \<open>pause()\<close> exactly when the latest request is
  still to pause.
\<close>

lemma pause_waits_for_stored_promise:
  assumes "mediaRef p = Some media" and "playPromise p = Some pr"
  shows "media_calls (snd (setPaused True p)) = media_calls p"
    and "awaiting (snd (setPaused True p)) = awaiting p @ [pr]"
  using assms
  by (simp_all add: setPaused_def getMedia_def updateMediaService_def Let_def)

lemma pause_at_once_without_stored_promise:
  assumes "mediaRef p = Some media" and "playPromise p = None"
  shows "media_calls (snd (setPaused True p)) = media_calls p @ [CallPause]"
  using assms
  by (simp add: setPaused_def getMedia_def updateMediaService_def media_pause_def Let_def)

lemma resume_pauses_when_still_paused:
  "media_calls (setPaused_resume p)
     = (if pausedRef p then media_calls p @ [CallPause] else media_calls p)"
  by (simp add: setPaused_resume_def media_pause_def Let_def)

text \<open>
  Claim C6. A pause asked for while a play operation is in flight is to wait for that
  operation. After play, pause, play, and the fulfilment of the first play promise, the
  resumed pause request has set \<open>_playPromise\<close> to undefined although the promise of the
  second \<open>play()\<close> is still pending (it calls no \<open>pause()\<close>, the latest request being
  to play): the next pause request finds no promise and calls \<open>pause()\<close> at once, with
  the second play operation in flight.
\<close>

theorem pause_overtakes_play_in_flight:
  "promise_state_of (run play_pause_play example_provider) 1 = Pending
   \<and> playPromise (run play_pause_play example_provider) = None
   \<and> media_calls (run play_pause_play example_provider) = [CallPlay, CallPlay]
   \<and> media_calls (step (Control (SetPaused True)) (run play_pause_play example_provider))
       = [CallPlay, CallPlay, CallPause]
   \<and> awaiting (step (Control (SetPaused True)) (run play_pause_play example_provider)) = []"
  by (simp add: play_pause_play_def example_provider_def initial_provider_def setPaused_def
      getMedia_def updateMediaService_def media_play_def media_pause_def microtasks_def
      resume_one_def promise_state_of_def settle_def setPaused_resume_def Let_def)

end
